theory Spec2Isabelle
  imports Complex_Main "HOL-Library.Word" "HOL-Library.Sublist"
begin

unbundle bit_operations_syntax

section \<open>Data model of lib/canvas.ts\<close>

text \<open>
  The canvas engine of the repository is the module \<^verbatim>\<open>lib/canvas.ts\<close>.  Its values are
  embedded as follows.

  \<^item> A JavaScript \<^verbatim>\<open>number\<close> that the code compares, adds and multiplies (coordinates,
    width, height) is a rational: every finite double is one, comparison and
    \<^verbatim>\<open>Number.isInteger\<close> are exact on them, and the products and sums the code forms
    are exact for the integer values a canvas has.  \<^verbatim>\<open>NaN\<close> and the infinities are not
    represented.
  \<^item> A \<^verbatim>\<open>Uint8Array\<close> is a list of 8-bit words.
  \<^item> A colour string is a \<^typ>\<open>string\<close>; trimming and lower-casing are modelled on
    ASCII.
  \<^item> An \<^verbatim>\<open>Error\<close> that the code throws is a value of type \<open>error\<close>, named after
    the message it carries.
  \<^item> \<^verbatim>\<open>Date.now()\<close> is an argument of the operation that reads the clock.
\<close>

type_synonym byte = "8 word"

record CanvasMetadata =
  width :: rat
  height :: rat
  palette :: "string list"

record CanvasState =
  meta :: CanvasMetadata
  pixelsBase64 :: string

datatype PixelSource = Mcp | Api | Script | System

datatype ToolName = Get_canvas | Set_pixel | Set_pixels | Get_events

text \<open>
  The field \<^verbatim>\<open>color\<close> of a \<^verbatim>\<open>pixel_set\<close> event is read from the palette array by
  index; reading a JavaScript array out of range gives \<^verbatim>\<open>undefined\<close>, which is \<open>None\<close>
  here.
\<close>

datatype CanvasEvent =
    PixelSetEvent (ev_x: rat) (ev_y: rat) (ev_color: "string option") (ev_colorIndex: nat)
      (ev_timestampMs: nat) (ev_source: PixelSource)
  | ToolUsedEvent ToolName string nat

datatype PixelUpdate = PixelUpdate (upd_x: rat) (upd_y: rat) (upd_color: string)

datatype error =
    OutOfBounds        \<comment> \<open>"Pixel coordinates out of bounds"\<close>
  | InvalidColor       \<comment> \<open>"Color must be a non-empty string"\<close>
  | PaletteFull        \<comment> \<open>"Palette is full (max 256 colors due to Uint8Array storage)"\<close>
  | LengthMismatch     \<comment> \<open>"Decoded pixels length ... does not match expected ..."\<close>
  | EmptyBatch         \<comment> \<open>"'updates' must be a non-empty array"\<close>
  | InvalidDimensions  \<comment> \<open>"Width and height must be positive integers"\<close>
  | RedisError         \<comment> \<open>"ERR value is not an integer or out of range", thrown by the client\<close>

definition DEFAULT_PALETTE :: "string list" where
  "DEFAULT_PALETTE =
     [''#FFFFFF'', ''#E4E4E4'', ''#888888'', ''#222222'',
      ''#FFA7D1'', ''#E50000'', ''#E59500'', ''#A06A42'',
      ''#E5D900'', ''#94E044'', ''#02BE01'', ''#00D3DD'',
      ''#0083C7'', ''#0000EA'', ''#CF6EE4'', ''#820080'']"


section \<open>Pixel codec\<close>

text \<open>
  \<^verbatim>\<open>Buffer.from(pixels).toString("base64")\<close> and \<^verbatim>\<open>Buffer.from(text, "base64")\<close> are
  the platform's base64 codec, not code of the repository.  The encoder is the one of
  RFC 4648 (three bytes become four characters of the standard alphabet, the last group
  is padded with \<^verbatim>\<open>=\<close>).  The decoder is the platform's lenient one: it stops at the first
  \<^verbatim>\<open>=\<close>, skips every character outside the alphabet (the URL-safe \<^verbatim>\<open>-\<close> and \<^verbatim>\<open>_\<close> count as
  62 and 63), and turns the sextets that remain into bytes, a trailing group of two or
  three sextets giving one or two bytes.
\<close>

definition base64Alphabet :: string where
  "base64Alphabet = ''ABCDEFGHIJKLMNOPQRSTUVWXYZabcdefghijklmnopqrstuvwxyz0123456789+/''"

definition base64Char :: "byte \<Rightarrow> char" where
  "base64Char v = base64Alphabet ! unat v"

fun indexOfChar :: "char \<Rightarrow> string \<Rightarrow> nat option" where
  "indexOfChar c [] = None"
| "indexOfChar c (a # as) =
     (if a = c then Some 0 else map_option Suc (indexOfChar c as))"

definition unbase64 :: "char \<Rightarrow> byte option" where
  "unbase64 c =
     (if c = CHR ''-'' then Some 62
      else if c = CHR ''_'' then Some 63
      else map_option of_nat (indexOfChar c base64Alphabet))"

fun bytesToSextets :: "byte list \<Rightarrow> byte list" where
  "bytesToSextets (a # b # c # rest) =
     [drop_bit 2 a,
      push_bit 4 (take_bit 2 a) OR drop_bit 4 b,
      push_bit 2 (take_bit 4 b) OR drop_bit 6 c,
      take_bit 6 c] @ bytesToSextets rest"
| "bytesToSextets [a, b] =
     [drop_bit 2 a,
      push_bit 4 (take_bit 2 a) OR drop_bit 4 b,
      push_bit 2 (take_bit 4 b)]"
| "bytesToSextets [a] = [drop_bit 2 a, push_bit 4 (take_bit 2 a)]"
| "bytesToSextets [] = []"

definition base64Padding :: "nat \<Rightarrow> string" where
  "base64Padding n = replicate ((3 - n mod 3) mod 3) CHR ''=''"

definition base64Encode :: "byte list \<Rightarrow> string" where
  "base64Encode bytes =
     map base64Char (bytesToSextets bytes) @ base64Padding (length bytes)"

fun sextetsToBytes :: "byte list \<Rightarrow> byte list" where
  "sextetsToBytes (a # b # c # d # rest) =
     [push_bit 2 a OR drop_bit 4 b,
      push_bit 4 (take_bit 4 b) OR drop_bit 2 c,
      push_bit 6 (take_bit 2 c) OR d] @ sextetsToBytes rest"
| "sextetsToBytes [a, b, c] =
     [push_bit 2 a OR drop_bit 4 b,
      push_bit 4 (take_bit 4 b) OR drop_bit 2 c]"
| "sextetsToBytes [a, b] = [push_bit 2 a OR drop_bit 4 b]"
| "sextetsToBytes [a] = []"
| "sextetsToBytes [] = []"

definition base64Decode :: "string \<Rightarrow> byte list" where
  "base64Decode s =
     sextetsToBytes (List.map_filter unbase64 (takeWhile (\<lambda>c. c \<noteq> CHR ''='') s))"

definition encodePixelsToBase64 :: "byte list \<Rightarrow> string" where
  "encodePixelsToBase64 pixels = base64Encode pixels"

definition decodePixelsFromBase64 :: "string \<Rightarrow> rat \<Rightarrow> error + byte list" where
  "decodePixelsFromBase64 base64 expectedLength =
     (let decoded = base64Decode base64
      in if of_nat (length decoded) \<noteq> expectedLength then Inl LengthMismatch
         else Inr decoded)"

definition isInteger :: "rat \<Rightarrow> bool" where
  "isInteger r = (of_int \<lfloor>r\<rfloor> = r)"

text \<open>
  \<^verbatim>\<open>createEmptyPixels\<close> is only called with the default 64 by 64 and with dimensions that
  \<^verbatim>\<open>resetCanvas\<close> has checked to be positive integers, where \<^verbatim>\<open>new Uint8Array(total)\<close>
  is an array of \<open>total\<close> bytes.
\<close>

definition createEmptyPixels :: "rat \<Rightarrow> rat \<Rightarrow> nat \<Rightarrow> byte list" where
  "createEmptyPixels w h fillIndex =
     (let total = w * h in replicate (nat \<lfloor>total\<rfloor>) (of_nat fillIndex))"

definition indexFor :: "rat \<Rightarrow> rat \<Rightarrow> rat \<Rightarrow> rat" where
  "indexFor x y w = y * w + x"

text \<open>
  The assignment \<^verbatim>\<open>pixels[i] = v\<close> on a \<^verbatim>\<open>Uint8Array\<close>: the value is stored modulo 256
  when \<open>i\<close> is an integer index of the array, and nothing happens otherwise (a typed
  array ignores a numeric key that is not one of its indices).
\<close>

definition uint8Set :: "byte list \<Rightarrow> rat \<Rightarrow> nat \<Rightarrow> byte list" where
  "uint8Set pixels i v =
     (if isInteger i \<and> 0 \<le> i \<and> i < of_nat (length pixels)
      then pixels[nat \<lfloor>i\<rfloor> := of_nat v]
      else pixels)"


section \<open>Palette manager\<close>

definition isWhitespace :: "char \<Rightarrow> bool" where
  "isWhitespace c = (c \<in> set [CHR '' '', CHR 0x09, CHR 0x0A, CHR 0x0B, CHR 0x0C, CHR 0x0D])"

definition trim :: "string \<Rightarrow> string" where
  "trim s = rev (dropWhile isWhitespace (rev (dropWhile isWhitespace s)))"

definition toLowerChar :: "char \<Rightarrow> char" where
  "toLowerChar c =
     (let n = (of_char c :: nat)
      in if 65 \<le> n \<and> n \<le> 90 then char_of (n + 32) else c)"

definition toLowerCase :: "string \<Rightarrow> string" where
  "toLowerCase s = map toLowerChar s"

text \<open>The character class \<^verbatim>\<open>[0-9a-f]\<close> under the flag \<^verbatim>\<open>i\<close>.\<close>

definition isHexDigit :: "char \<Rightarrow> bool" where
  "isHexDigit c =
     (let n = (of_char c :: nat)
      in (48 \<le> n \<and> n \<le> 57) \<or> (97 \<le> n \<and> n \<le> 102) \<or> (65 \<le> n \<and> n \<le> 70))"

text \<open>The match of \<^verbatim>\<open>/^#([0-9a-f]{3})$/i\<close> and the expansion of its three digits.\<close>

fun expandShortHex :: "string \<Rightarrow> string" where
  "expandShortHex [h, r, g, b] =
     (if h = CHR ''#'' \<and> isHexDigit r \<and> isHexDigit g \<and> isHexDigit b
      then [CHR ''#'', r, r, g, g, b, b]
      else [h, r, g, b])"
| "expandShortHex s = s"

definition normalizeColorString :: "string \<Rightarrow> string" where
  "normalizeColorString input =
     (let trimmed = toLowerCase (trim input) in expandShortHex trimmed)"

text \<open>\<^verbatim>\<open>Array.prototype.findIndex\<close>, with \<open>None\<close> for \<open>-1\<close>.\<close>

fun findIndex :: "('a \<Rightarrow> bool) \<Rightarrow> 'a list \<Rightarrow> nat option" where
  "findIndex P [] = None"
| "findIndex P (a # as) = (if P a then Some 0 else map_option Suc (findIndex P as))"

definition ensureColorInPalette :: "string list \<Rightarrow> string \<Rightarrow> error + (string list \<times> nat)" where
  "ensureColorInPalette p color =
     (let normalized = normalizeColorString color
      in case findIndex (\<lambda>c. normalizeColorString c = normalized) p of
           Some existingIndex \<Rightarrow> Inr (p, existingIndex)
         | None \<Rightarrow>
             if length p \<ge> 256 then Inl PaletteFull
             else (let updatedPalette = p @ [normalized]
                   in Inr (updatedPalette, length updatedPalette - 1)))"

text \<open>Reading \<^verbatim>\<open>palette[i]\<close>.\<close>

definition arrayAt :: "'a list \<Rightarrow> nat \<Rightarrow> 'a option" where
  "arrayAt xs i = (if i < length xs then Some (xs ! i) else None)"


section \<open>The store and the event log\<close>

text \<open>
  The Redis list \<^verbatim>\<open>canvas:events:v1\<close> holds values of any shape; the model keeps them
  as \<^verbatim>\<open>lrange\<close> hands them to the reader.  A string is
  given by what \<^verbatim>\<open>JSON.parse\<close> makes of it (\<open>None\<close> when it throws); an object is one
  whose \<^verbatim>\<open>type\<close> is \<^verbatim>\<open>"pixel_set"\<close> or \<^verbatim>\<open>"tool_used"\<close>, or any other object; everything
  else (numbers, booleans, \<^verbatim>\<open>null\<close>) is a primitive.
\<close>

datatype jsvalue =
    JString "jsvalue option"
  | JEventObject CanvasEvent
  | JOtherObject
  | JPrimitive

record redis =
  canvas_v1 :: "CanvasState option"
  events_v1 :: "jsvalue list"

text \<open>
  \<^verbatim>\<open>redis.llen\<close> hands the length of the list to the code as a number.  \<^verbatim>\<open>LRANGE\<close> of
  Redis takes integer indices: a negative index counts from the end of the list, and an
  index past the end is cut to it.  The code calls \<^verbatim>\<open>redis.lrange\<close> with numbers it has
  computed; Redis refuses an index that is not an integer, and the call throws.
\<close>

definition llen :: "'a list \<Rightarrow> rat" where
  "llen xs = of_nat (length xs)"

definition lrange :: "'a list \<Rightarrow> int \<Rightarrow> int \<Rightarrow> 'a list" where
  "lrange xs start stop =
     (let n = int (length xs);
          s = (if start < 0 then max 0 (n + start) else start);
          e = (if stop < 0 then n + stop else min stop (n - 1))
      in if e < s \<or> n \<le> s then [] else take (nat (e - s + 1)) (drop (nat s) xs))"

definition redisLrange :: "'a list \<Rightarrow> rat \<Rightarrow> rat \<Rightarrow> error + 'a list" where
  "redisLrange xs start stop =
     (if isInteger start \<and> isInteger stop then Inr (lrange xs \<lfloor>start\<rfloor> \<lfloor>stop\<rfloor>)
      else Inl RedisError)"

text \<open>\<^verbatim>\<open>redis.rpush(EVENTS_LIST_KEY, JSON.stringify(event))\<close>: the entry is a string that
  parses back to the event.\<close>

definition appendEventToLog :: "CanvasEvent \<Rightarrow> redis \<Rightarrow> redis" where
  "appendEventToLog event s = s\<lparr>events_v1 := events_v1 s @ [JString (Some (JEventObject event))]\<rparr>"

text \<open>The body of the \<^verbatim>\<open>map\<close> callback of \<^verbatim>\<open>getCanvasEvents\<close>: at most two layers of
  JSON text are parsed away, then the value must be an object of a known type.\<close>

definition decodeLayers :: "jsvalue \<Rightarrow> jsvalue" where
  "decodeLayers raw =
     (case raw of
        JString (Some v1) \<Rightarrow> (case v1 of JString (Some v2) \<Rightarrow> v2 | _ \<Rightarrow> v1)
      | _ \<Rightarrow> raw)"

definition parseEntry :: "jsvalue \<Rightarrow> CanvasEvent option" where
  "parseEntry raw =
     (case decodeLayers raw of
        JEventObject e \<Rightarrow> Some e
      | _ \<Rightarrow> None)"

text \<open>
  The argument \<^verbatim>\<open>params?.limit\<close>: left out, a number, or a value that is not a number
  (which the type forbids and JavaScript allows; \<^verbatim>\<open>NaN\<close> behaves the same way, as no
  comparison with it holds).  A number need not be an integer: the tool schema asks for
  one, the HTTP route and the script pass on any finite number.
\<close>

datatype limitArg = LimitOmitted | LimitNumber rat | LimitNotNumber

text \<open>The test \<^verbatim>\<open>typeof limit === "number" && limit > 0\<close>.\<close>

definition positiveLimit :: "limitArg \<Rightarrow> rat option" where
  "positiveLimit limit =
     (case limit of LimitNumber l \<Rightarrow> if 0 < l then Some l else None | _ \<Rightarrow> None)"

definition getCanvasEvents :: "limitArg \<Rightarrow> redis \<Rightarrow> error + CanvasEvent list" where
  "getCanvasEvents limit s =
     (case positiveLimit limit of
        Some l \<Rightarrow>
          (let len = llen (events_v1 s);
               start = max 0 (len - l)
           in case redisLrange (events_v1 s) start (len - 1) of
                Inl e \<Rightarrow> Inl e
              | Inr values \<Rightarrow> Inr (List.map_filter parseEntry values))
      | None \<Rightarrow>
          (case redisLrange (events_v1 s) 0 (- 1) of
             Inl e \<Rightarrow> Inl e
           | Inr all \<Rightarrow> Inr (List.map_filter parseEntry all)))"


section \<open>Canvas service\<close>

definition initialState :: CanvasState where
  "initialState =
     \<lparr>meta = \<lparr>width = 64, height = 64, palette = DEFAULT_PALETTE\<rparr>,
      pixelsBase64 = encodePixelsToBase64 (createEmptyPixels 64 64 0)\<rparr>"

definition getCanvas :: "redis \<Rightarrow> CanvasState \<times> redis" where
  "getCanvas s =
     (case canvas_v1 s of
        Some state \<Rightarrow> (state, s)
      | None \<Rightarrow> (initialState, s\<lparr>canvas_v1 := Some initialState\<rparr>))"

definition setPixel ::
  "rat \<Rightarrow> rat \<Rightarrow> string \<Rightarrow> PixelSource option \<Rightarrow> nat \<Rightarrow> redis \<Rightarrow> (error + CanvasState) \<times> redis" where
  "setPixel x y color source now s =
     (let (current, s1) = getCanvas s;
          w = width (meta current);
          h = height (meta current)
      in if x < 0 \<or> y < 0 \<or> x \<ge> w \<or> y \<ge> h then (Inl OutOfBounds, s1)
         else if length (trim color) = 0 then (Inl InvalidColor, s1)
         else case ensureColorInPalette (palette (meta current)) color of
                Inl e \<Rightarrow> (Inl e, s1)
              | Inr (p, indexToSet) \<Rightarrow>
                  (case decodePixelsFromBase64 (pixelsBase64 current) (w * h) of
                     Inl e \<Rightarrow> (Inl e, s1)
                   | Inr pixels \<Rightarrow>
                       (let pixels' = uint8Set pixels (indexFor x y w) indexToSet;
                            updated = \<lparr>meta = (meta current)\<lparr>palette := p\<rparr>,
                                       pixelsBase64 = encodePixelsToBase64 pixels'\<rparr>;
                            s2 = s1\<lparr>canvas_v1 := Some updated\<rparr>;
                            normalizedColor = arrayAt p indexToSet;
                            event = PixelSetEvent x y normalizedColor indexToSet now
                                      (case source of Some src \<Rightarrow> src | None \<Rightarrow> System)
                        in (Inr updated, appendEventToLog event s2))))"

text \<open>The first loop of \<^verbatim>\<open>setPixels\<close>, over the palette and the decoded grid.\<close>

fun applyUpdates ::
  "rat \<Rightarrow> rat \<Rightarrow> PixelUpdate list \<Rightarrow> string list \<Rightarrow> byte list \<Rightarrow> error + (string list \<times> byte list)" where
  "applyUpdates w h [] p pixels = Inr (p, pixels)"
| "applyUpdates w h (update # rest) p pixels =
     (let x = upd_x update; y = upd_y update; color = upd_color update
      in if \<not> isInteger x \<or> \<not> isInteger y \<or> x < 0 \<or> y < 0 \<or> x \<ge> w \<or> y \<ge> h
         then Inl OutOfBounds
         else if length (trim color) = 0 then Inl InvalidColor
         else case ensureColorInPalette p color of
                Inl e \<Rightarrow> Inl e
              | Inr (p', indexToSet) \<Rightarrow>
                  applyUpdates w h rest p' (uint8Set pixels (indexFor x y w) indexToSet))"

text \<open>The second loop of \<^verbatim>\<open>setPixels\<close>: one event per update, its index looked up in
  the palette that was persisted.\<close>

fun appendPixelEvents ::
  "string list \<Rightarrow> PixelSource option \<Rightarrow> nat \<Rightarrow> PixelUpdate list \<Rightarrow> redis \<Rightarrow> error option \<times> redis" where
  "appendPixelEvents p source now [] s = (None, s)"
| "appendPixelEvents p source now (update # rest) s =
     (case ensureColorInPalette p (upd_color update) of
        Inl e \<Rightarrow> (Some e, s)
      | Inr (_, colorIndex) \<Rightarrow>
          (let normalizedColor = arrayAt p colorIndex;
               event = PixelSetEvent (upd_x update) (upd_y update) normalizedColor colorIndex now
                         (case source of Some src \<Rightarrow> src | None \<Rightarrow> System)
           in appendPixelEvents p source now rest (appendEventToLog event s)))"

definition setPixels ::
  "PixelUpdate list \<Rightarrow> PixelSource option \<Rightarrow> nat \<Rightarrow> redis \<Rightarrow> (error + CanvasState) \<times> redis" where
  "setPixels updates source now s =
     (if length updates = 0 then (Inl EmptyBatch, s)
      else (let (current, s1) = getCanvas s;
                w = width (meta current);
                h = height (meta current)
            in case decodePixelsFromBase64 (pixelsBase64 current) (w * h) of
                 Inl e \<Rightarrow> (Inl e, s1)
               | Inr pixels \<Rightarrow>
                   (case applyUpdates w h updates (palette (meta current)) pixels of
                      Inl e \<Rightarrow> (Inl e, s1)
                    | Inr (p, pixels') \<Rightarrow>
                        (let updated = \<lparr>meta = (meta current)\<lparr>palette := p\<rparr>,
                                        pixelsBase64 = encodePixelsToBase64 pixels'\<rparr>;
                             s2 = s1\<lparr>canvas_v1 := Some updated\<rparr>
                         in case appendPixelEvents p source now updates s2 of
                              (Some e, s3) \<Rightarrow> (Inl e, s3)
                            | (None, s3) \<Rightarrow> (Inr updated, s3)))))"

definition resetCanvas ::
  "rat option \<Rightarrow> rat option \<Rightarrow> string list option \<Rightarrow> redis \<Rightarrow> (error + CanvasState) \<times> redis" where
  "resetCanvas pw ph pp s =
     (let (existing, s1) = getCanvas s;
          w = (case pw of Some v \<Rightarrow> v | None \<Rightarrow> width (meta existing));
          h = (case ph of Some v \<Rightarrow> v | None \<Rightarrow> height (meta existing));
          p = (case pp of Some v \<Rightarrow> v | None \<Rightarrow> palette (meta existing))
      in if \<not> isInteger w \<or> \<not> isInteger h \<or> w \<le> 0 \<or> h \<le> 0
         then (Inl InvalidDimensions, s1)
         else (let updated = \<lparr>meta = \<lparr>width = w, height = h, palette = p\<rparr>,
                              pixelsBase64 = encodePixelsToBase64 (createEmptyPixels w h 0)\<rparr>
               in (Inr updated, s1\<lparr>canvas_v1 := Some updated\<rparr>)))"


section \<open>Notions used to state the properties\<close>

text \<open>An update passes the checks of \<^verbatim>\<open>setPixels\<close> on its coordinates and its colour.\<close>

definition validUpdate :: "rat \<Rightarrow> rat \<Rightarrow> PixelUpdate \<Rightarrow> bool" where
  "validUpdate w h u =
     (isInteger (upd_x u) \<and> isInteger (upd_y u) \<and> 0 \<le> upd_x u \<and> 0 \<le> upd_y u
      \<and> upd_x u < w \<and> upd_y u < h \<and> trim (upd_color u) \<noteq> [])"

text \<open>The index a colour resolves to in a palette: the first entry with its normal form.\<close>

definition paletteIndex :: "string list \<Rightarrow> string \<Rightarrow> nat option" where
  "paletteIndex p color = findIndex (\<lambda>c. normalizeColorString c = normalizeColorString color) p"

text \<open>
  What the batch is specified to do, to compare \<^verbatim>\<open>setPixels\<close> with: the updates written
  one after the other, in the order of the input, into one grid, each with the index of
  its colour in a given palette; and the event of an update, its index and colour read
  from that palette.
\<close>

fun writesInInputOrder :: "rat \<Rightarrow> string list \<Rightarrow> PixelUpdate list \<Rightarrow> byte list \<Rightarrow> byte list" where
  "writesInInputOrder w p [] grid = grid"
| "writesInInputOrder w p (u # us) grid =
     writesInInputOrder w p us
       (case paletteIndex p (upd_color u) of
          Some i \<Rightarrow> uint8Set grid (indexFor (upd_x u) (upd_y u) w) i
        | None \<Rightarrow> grid)"

definition eventAgainstPalette :: "string list \<Rightarrow> PixelSource option \<Rightarrow> nat \<Rightarrow> PixelUpdate \<Rightarrow> CanvasEvent" where
  "eventAgainstPalette p source now u =
     (let i = (case paletteIndex p (upd_color u) of Some i \<Rightarrow> i | None \<Rightarrow> length p)
      in PixelSetEvent (upd_x u) (upd_y u) (arrayAt p i) i now
           (case source of Some src \<Rightarrow> src | None \<Rightarrow> System))"


text \<open>
  The error of one step of the batch on a given palette, if it has one: the coordinates
  are checked first, then the colour, then the room in the palette for a colour that is
  new.  And the palette after the colours of some updates have been added in order.
\<close>

definition stepError :: "rat \<Rightarrow> rat \<Rightarrow> string list \<Rightarrow> PixelUpdate \<Rightarrow> error option" where
  "stepError w h p u =
     (if \<not> (isInteger (upd_x u) \<and> isInteger (upd_y u) \<and> 0 \<le> upd_x u \<and> 0 \<le> upd_y u
             \<and> upd_x u < w \<and> upd_y u < h)
      then Some OutOfBounds
      else if trim (upd_color u) = [] then Some InvalidColor
      else if paletteIndex p (upd_color u) = None \<and> 256 \<le> length p then Some PaletteFull
      else None)"

fun paletteAfter :: "string list \<Rightarrow> PixelUpdate list \<Rightarrow> string list" where
  "paletteAfter p [] = p"
| "paletteAfter p (u # us) =
     paletteAfter
       (case paletteIndex p (upd_color u) of
          Some i \<Rightarrow> p
        | None \<Rightarrow> p @ [normalizeColorString (upd_color u)])
       us"

text \<open>The operations of the service, and the store each leaves behind.\<close>

datatype operation =
    OpGetCanvas
  | OpSetPixel rat rat string "PixelSource option"
  | OpSetPixels "PixelUpdate list" "PixelSource option"
  | OpResetCanvas "rat option" "rat option" "string list option"

fun perform :: "operation \<Rightarrow> nat \<Rightarrow> redis \<Rightarrow> redis" where
  "perform OpGetCanvas now s = snd (getCanvas s)"
| "perform (OpSetPixel x y color source) now s = snd (setPixel x y color source now s)"
| "perform (OpSetPixels updates source) now s = snd (setPixels updates source now s)"
| "perform (OpResetCanvas pw ph pp) now s = snd (resetCanvas pw ph pp s)"

fun replacesPalette :: "operation \<Rightarrow> bool" where
  "replacesPalette (OpResetCanvas pw ph (Some p)) = True"
| "replacesPalette _ = False"

text \<open>The palette of the canvas, as \<^verbatim>\<open>getCanvas\<close> reads it.\<close>

definition paletteOf :: "redis \<Rightarrow> string list" where
  "paletteOf s = palette (meta (fst (getCanvas s)))"


section \<open>Example states\<close>

text \<open>A log with a well-formed entry, a number, a doubly encoded entry and an entry that
  was stored as an object.\<close>

definition exampleLog :: redis where
  "exampleLog = \<lparr>canvas_v1 = None, events_v1 =
     [JString (Some (JEventObject (ToolUsedEvent Get_canvas ''{}'' 1))),
      JPrimitive,
      JString (Some (JString (Some (JEventObject (PixelSetEvent 0 0 (Some ''#ffffff'') 0 2 Mcp))))),
      JEventObject (ToolUsedEvent Get_events ''{}'' 3)]\<rparr>"

text \<open>A stored two by two canvas, all pixels of colour 0.\<close>

definition smallCanvas :: redis where
  "smallCanvas =
     \<lparr>canvas_v1 = Some \<lparr>meta = \<lparr>width = 2, height = 2, palette = [''#ffffff'', ''#000000'']\<rparr>,
                        pixelsBase64 = encodePixelsToBase64 [0, 0, 0, 0]\<rparr>,
      events_v1 = []\<rparr>"

text \<open>A one by one canvas whose palette holds 256 colours, and the store after pixel (1, 1)
  of a fresh canvas was set to a new colour.\<close>

definition fullPalette :: "string list" where
  "fullPalette =
     concat (map (\<lambda>a. map (\<lambda>b. [CHR ''#'', CHR ''0'', CHR ''0'', CHR ''0'', CHR ''0'', a, b])
                         ''0123456789abcdef'') ''0123456789abcdef'')"

definition fullCanvas :: redis where
  "fullCanvas =
     \<lparr>canvas_v1 = Some \<lparr>meta = \<lparr>width = 1, height = 1, palette = fullPalette\<rparr>,
                        pixelsBase64 = encodePixelsToBase64 [0]\<rparr>,
      events_v1 = []\<rparr>"


definition grownCanvas :: redis where
  "grownCanvas = snd (setPixel 1 1 ''#123456'' (Some Mcp) 1 \<lparr>canvas_v1 = None, events_v1 = []\<rparr>)"


section \<open>The pixel codec is reversible\<close>

lemma distinct_base64Alphabet: "distinct base64Alphabet"
  by (simp add: base64Alphabet_def)

lemma length_base64Alphabet: "length base64Alphabet = 64"
  by (simp add: base64Alphabet_def)

lemma indexOfChar_nth:
  "distinct xs \<Longrightarrow> n < length xs \<Longrightarrow> indexOfChar (xs ! n) xs = Some n"
proof (induction xs arbitrary: n)
  case Nil
  then show ?case by simp
next
  case (Cons a xs)
  then show ?case by (cases n) auto
qed

lemma base64Char_in_alphabet:
  assumes "v < 64" shows "base64Char v \<in> set base64Alphabet"
proof -
  from assms have "unat v < length base64Alphabet"
    by (simp add: word_less_nat_alt length_base64Alphabet)
  then show ?thesis unfolding base64Char_def by (rule nth_mem)
qed

lemma base64Char_not_special:
  assumes "v < 64"
  shows "base64Char v \<noteq> CHR ''=''" "base64Char v \<noteq> CHR ''-''" "base64Char v \<noteq> CHR ''_''"
  using base64Char_in_alphabet[OF assms] by (auto simp: base64Alphabet_def)

lemma unbase64_base64Char:
  assumes "v < 64" shows "unbase64 (base64Char v) = Some v"
proof -
  from assms have u: "unat v < length base64Alphabet"
    by (simp add: word_less_nat_alt length_base64Alphabet)
  have "indexOfChar (base64Char v) base64Alphabet = Some (unat v)"
    unfolding base64Char_def using distinct_base64Alphabet u by (rule indexOfChar_nth)
  then show ?thesis
    using base64Char_not_special[OF assms] by (simp add: unbase64_def)
qed

lemma sextetI: "take_bit 6 (v::byte) = v \<Longrightarrow> v < 64"
  using mask_eq_iff_w2p[of 6 v] by (simp add: take_bit_eq_mask word_size)

lemma sextet_bounds:
  "drop_bit 2 (a::byte) < 64"
  "push_bit 4 (take_bit 2 a) OR drop_bit 4 (b::byte) < 64"
  "push_bit 2 (take_bit 4 b) OR drop_bit 6 (c::byte) < 64"
  "take_bit 6 c < 64"
  "push_bit 4 (take_bit 2 a) < 64"
  "push_bit 2 (take_bit 4 b) < 64"
  by (rule sextetI, rule bit_word_eqI, auto simp: bit_simps dest: bit_imp_le_length)+

lemma bytesToSextets_bound: "\<forall>v \<in> set (bytesToSextets bytes). v < 64"
  by (induction bytes rule: bytesToSextets.induct) (simp_all add: sextet_bounds)

lemma Suc_Suc_diff_2: "2 \<le> n \<Longrightarrow> Suc (Suc (n - 2)) = n"
  by simp

lemma regroup_first:
  "push_bit 2 (drop_bit 2 (a::byte)) OR drop_bit 4 (push_bit 4 (take_bit 2 a) OR drop_bit 4 (b::byte)) = a"
proof (rule bit_word_eqI)
  fix n assume "n < LENGTH(8)"
  then show "bit (push_bit 2 (drop_bit 2 a) OR drop_bit 4 (push_bit 4 (take_bit 2 a) OR drop_bit 4 b)) n = bit a n"
    by (cases "2 \<le> n") (auto simp: bit_simps Suc_Suc_diff_2 not_less)
qed

lemma regroup_first_last:
  "push_bit 2 (drop_bit 2 (a::byte)) OR drop_bit 4 (push_bit 4 (take_bit 2 a)) = a"
proof (rule bit_word_eqI)
  fix n assume "n < LENGTH(8)"
  then show "bit (push_bit 2 (drop_bit 2 a) OR drop_bit 4 (push_bit 4 (take_bit 2 a))) n = bit a n"
    by (cases "2 \<le> n") (auto simp: bit_simps Suc_Suc_diff_2 not_less)
qed

lemma regroup_second:
  "push_bit 4 (take_bit 4 (push_bit 4 (take_bit 2 a) OR drop_bit 4 (b::byte))) OR
     drop_bit 2 (push_bit 2 (take_bit 4 b) OR drop_bit 6 (c::byte)) = b"
  by (rule bit_word_eqI) (auto simp: bit_simps Suc_Suc_diff_2 not_less)

lemma regroup_second_last:
  "push_bit 4 (take_bit 4 (push_bit 4 (take_bit 2 a) OR drop_bit 4 (b::byte))) OR
     drop_bit 2 (push_bit 2 (take_bit 4 b)) = b"
  by (rule bit_word_eqI) (auto simp: bit_simps Suc_Suc_diff_2 not_less)

lemma regroup_third:
  "push_bit 6 (take_bit 2 (push_bit 2 (take_bit 4 b) OR drop_bit 6 (c::byte))) OR take_bit 6 c = c"
  by (rule bit_word_eqI) (auto simp: bit_simps Suc_Suc_diff_2 not_less)

lemma sextetsToBytes_bytesToSextets: "sextetsToBytes (bytesToSextets bytes) = bytes"
  by (induction bytes rule: bytesToSextets.induct)
     (simp_all only: bytesToSextets.simps sextetsToBytes.simps append.simps
        regroup_first regroup_first_last regroup_second regroup_second_last regroup_third)

lemma takeWhile_encoded:
  "\<forall>v \<in> set vs. v < 64 \<Longrightarrow>
   takeWhile (\<lambda>c. c \<noteq> CHR ''='') (map base64Char vs @ replicate k CHR ''='') = map base64Char vs"
proof (induction vs)
  case Nil
  show ?case by (cases k) simp_all
next
  case (Cons v vs)
  then show ?case by (simp add: base64Char_not_special(1))
qed

lemma map_filter_unbase64:
  "\<forall>v \<in> set vs. v < 64 \<Longrightarrow> List.map_filter unbase64 (map base64Char vs) = vs"
  by (induction vs) (simp_all add: List.map_filter_simps unbase64_base64Char)

lemma base64Decode_base64Encode: "base64Decode (base64Encode bytes) = bytes"
  unfolding base64Decode_def base64Encode_def base64Padding_def
  by (simp add: takeWhile_encoded[OF bytesToSextets_bound] map_filter_unbase64[OF bytesToSextets_bound]
      sextetsToBytes_bytesToSextets)

text \<open>
  Claim C7.  Decoding the encoding of a grid with the grid's own length as the expected
  length gives the grid back, whatever the grid is.  Decoding any text fails with the
  length-mismatch error exactly when the number of decoded bytes differs from the
  expected length, and returns the decoded bytes exactly when it does not.
\<close>

theorem pixel_codec_roundtrip:
  "decodePixelsFromBase64 (encodePixelsToBase64 grid) (of_nat (length grid)) = Inr grid
   \<and> (decodePixelsFromBase64 text expectedLength = Inl LengthMismatch
        \<longleftrightarrow> of_nat (length (base64Decode text)) \<noteq> expectedLength)
   \<and> (decodePixelsFromBase64 text expectedLength = Inr (base64Decode text)
        \<longleftrightarrow> of_nat (length (base64Decode text)) = expectedLength)"
  by (simp add: decodePixelsFromBase64_def encodePixelsToBase64_def base64Decode_base64Encode Let_def)

lemma base64Decode_AQID: "base64Decode ''AQID'' = [1, 2, 3]"
  by code_simp

theorem pixel_codec_roundtrip_witness:
  "decodePixelsFromBase64 (encodePixelsToBase64 [1, 2, 3, 255]) 4 = Inr [1, 2, 3, 255]
   \<and> decodePixelsFromBase64 ''AQID'' 4 = Inl LengthMismatch
   \<and> decodePixelsFromBase64 ''AQID'' 3 = Inr [1, 2, 3]"
  using pixel_codec_roundtrip [of "[1, 2, 3, 255]" "''AQID''" 4]
    pixel_codec_roundtrip [of "[]" "''AQID''" 3]
  by (simp add: base64Decode_AQID)


section \<open>Normalisation and the palette\<close>

lemma isWhitespace_code:
  "isWhitespace c \<Longrightarrow> (of_char c :: nat) \<in> {9, 10, 11, 12, 13, 32}"
  by (auto simp: isWhitespace_def)

lemma of_char_lowered:
  "of_char c \<le> (90::nat) \<Longrightarrow> (of_char (char_of (of_char c + 32 :: nat)) :: nat) = of_char c + 32"
  by (simp add: of_char_of)

lemma isWhitespace_toLowerChar [simp]: "isWhitespace (toLowerChar c) = isWhitespace c"
proof (cases "65 \<le> (of_char c :: nat) \<and> (of_char c :: nat) \<le> 90")
  case True
  then have "\<not> isWhitespace c"
    using isWhitespace_code[of c] by auto
  moreover have "\<not> isWhitespace (char_of (of_char c + 32 :: nat))"
    using isWhitespace_code[of "char_of (of_char c + 32 :: nat)"] of_char_lowered[of c] True by auto
  ultimately show ?thesis using True by (simp add: toLowerChar_def)
next
  case False
  then show ?thesis by (auto simp: toLowerChar_def)
qed

lemma toLowerChar_idem [simp]: "toLowerChar (toLowerChar c) = toLowerChar c"
proof (cases "65 \<le> (of_char c :: nat) \<and> (of_char c :: nat) \<le> 90")
  case True
  then show ?thesis using of_char_lowered[of c] by (simp add: toLowerChar_def Let_def)
next
  case False
  then show ?thesis by (auto simp: toLowerChar_def)
qed

lemma toLowerCase_idem [simp]: "toLowerCase (toLowerCase s) = toLowerCase s"
  by (simp add: toLowerCase_def)

lemma trim_toLowerCase: "trim (toLowerCase s) = toLowerCase (trim s)"
  by (simp add: trim_def toLowerCase_def dropWhile_map rev_map comp_def)

lemma dropWhile_rev_dropWhile:
  "dropWhile P (rev (dropWhile P (rev (dropWhile P s)))) = rev (dropWhile P (rev (dropWhile P s)))"
proof (cases "dropWhile P (rev (dropWhile P s)) = []")
  case True
  show ?thesis unfolding True by simp
next
  case False
  define t where "t = dropWhile P s"
  define u where "u = dropWhile P (rev t)"
  from False have u: "u \<noteq> []" by (simp add: u_def t_def)
  then have t: "t \<noteq> []" by (auto simp: u_def)
  have "last u = last (rev t)"
    using u unfolding u_def by (metis last_appendR takeWhile_dropWhile_id)
  also have "\<dots> = hd t" using t by (simp add: last_rev)
  finally have "\<not> P (last u)" using t hd_dropWhile[of P s] by (simp add: t_def)
  then have "\<not> P (hd (rev u))" using u by (simp add: hd_rev)
  then have "dropWhile P (rev u) = rev u" using u by (cases "rev u") auto
  then show ?thesis by (simp add: u_def t_def)
qed

lemma trim_idem [simp]: "trim (trim s) = trim s"
  by (simp add: trim_def dropWhile_rev_dropWhile)

lemma isHexDigit_not_whitespace: "isHexDigit c \<Longrightarrow> \<not> isWhitespace c"
  using isWhitespace_code[of c] by (auto simp: isHexDigit_def Let_def)

lemma hash_not_whitespace: "\<not> isWhitespace CHR ''#''"
  by (simp add: isWhitespace_def)


lemma expandShortHex_cases:
  "expandShortHex t = t \<or>
   (\<exists>r g b. t = [CHR ''#'', r, g, b] \<and> isHexDigit b \<and> expandShortHex t = [CHR ''#'', r, r, g, g, b, b])"
  by (cases t rule: expandShortHex.cases) auto

lemma expanded_fixed:
  assumes T: "toLowerCase (trim t) = t" and t: "t = [CHR ''#'', r, g, b]" and hex: "isHexDigit b"
  shows "toLowerCase (trim [CHR ''#'', r, r, g, g, b, b]) = [CHR ''#'', r, r, g, g, b, b]"
proof -
  have low: "toLowerChar r = r" "toLowerChar g = g" "toLowerChar b = b"
    using T t isHexDigit_not_whitespace[OF hex] hash_not_whitespace
    by (simp_all add: trim_def toLowerCase_def)
  have h: "toLowerChar CHR ''#'' = CHR ''#''" by (simp add: toLowerChar_def)
  have "trim [CHR ''#'', r, r, g, g, b, b] = [CHR ''#'', r, r, g, g, b, b]"
    using isHexDigit_not_whitespace[OF hex] hash_not_whitespace by (simp add: trim_def)
  then show ?thesis using low h by (simp add: toLowerCase_def)
qed

lemma normalizeColorString_idem [simp]:
  "normalizeColorString (normalizeColorString s) = normalizeColorString s"
proof -
  define t where "t = toLowerCase (trim s)"
  have T: "toLowerCase (trim t) = t"
    by (simp add: t_def trim_toLowerCase)
  have n: "normalizeColorString s = expandShortHex t"
    by (simp add: normalizeColorString_def t_def)
  from expandShortHex_cases[of t] show ?thesis
  proof
    assume e: "expandShortHex t = t"
    show ?thesis unfolding n e using e T by (simp add: normalizeColorString_def)
  next
    assume "\<exists>r g b. t = [CHR ''#'', r, g, b] \<and> isHexDigit b \<and> expandShortHex t = [CHR ''#'', r, r, g, g, b, b]"
    then obtain r g b where t: "t = [CHR ''#'', r, g, b]" and hex: "isHexDigit b"
      and e: "expandShortHex t = [CHR ''#'', r, r, g, g, b, b]"
      by blast
    show ?thesis
      unfolding n e using expanded_fixed[OF T t hex] by (simp add: normalizeColorString_def)
  qed
qed


lemma findIndex_Some:
  "findIndex P xs = Some i \<Longrightarrow> i < length xs \<and> P (xs ! i) \<and> (\<forall>j<i. \<not> P (xs ! j))"
proof (induction xs arbitrary: i)
  case Nil
  then show ?case by simp
next
  case (Cons a xs)
  show ?case
  proof (cases "P a")
    case True
    with Cons.prems show ?thesis by simp
  next
    case False
    with Cons.prems obtain k where k: "findIndex P xs = Some k" "i = Suc k" by auto
    from Cons.IH[OF k(1)] False k(2) show ?thesis by (auto simp: less_Suc_eq_0_disj)
  qed
qed

lemma findIndex_None: "findIndex P xs = None \<longleftrightarrow> (\<forall>x \<in> set xs. \<not> P x)"
  by (induction xs) auto

lemma findIndex_append:
  "findIndex P (xs @ ys) =
     (case findIndex P xs of Some i \<Rightarrow> Some i
      | None \<Rightarrow> map_option (\<lambda>j. length xs + j) (findIndex P ys))"
proof (induction xs)
  case Nil
  show ?case by (cases "findIndex P ys") simp_all
next
  case (Cons a xs)
  then show ?case by (cases "findIndex P ys") (auto split: option.splits)
qed

lemma findIndex_prefix:
  "findIndex P xs = Some i \<Longrightarrow> prefix xs zs \<Longrightarrow> findIndex P zs = Some i"
  by (auto simp: prefix_def findIndex_append)

lemma ensureColorInPalette_found:
  assumes "ensureColorInPalette p color = Inr (p', i)"
  shows "findIndex (\<lambda>c. normalizeColorString c = normalizeColorString color) p' = Some i"
proof (cases "findIndex (\<lambda>c. normalizeColorString c = normalizeColorString color) p")
  case None
  with assms have p': "p' = p @ [normalizeColorString color]" and i: "i = length p"
    by (auto simp: ensureColorInPalette_def Let_def split: if_splits)
  show ?thesis unfolding p' i by (simp add: findIndex_append None)
next
  case (Some k)
  with assms show ?thesis by (simp add: ensureColorInPalette_def Let_def)
qed

lemma ensureColorInPalette_prefix:
  "ensureColorInPalette p color = Inr (p', i) \<Longrightarrow> prefix p p'"
  by (auto simp: ensureColorInPalette_def Let_def split: option.splits if_splits)

lemma ensureColorInPalette_of_found:
  "findIndex (\<lambda>c. normalizeColorString c = normalizeColorString color) p = Some i
   \<Longrightarrow> ensureColorInPalette p color = Inr (p, i)"
  by (simp add: ensureColorInPalette_def)

lemma ensureColorInPalette_distinct:
  assumes "ensureColorInPalette p color = Inr (p', i)"
    and "distinct (map normalizeColorString p)"
  shows "distinct (map normalizeColorString p')"
proof (cases "findIndex (\<lambda>c. normalizeColorString c = normalizeColorString color) p")
  case None
  with assms(1) have p': "p' = p @ [normalizeColorString color]"
    by (auto simp: ensureColorInPalette_def Let_def split: if_splits)
  from None have "normalizeColorString color \<notin> set (map normalizeColorString p)"
    by (auto simp: findIndex_None)
  with assms(2) show ?thesis by (simp add: p')
next
  case (Some k)
  with assms show ?thesis by (simp add: ensureColorInPalette_def Let_def)
qed

text \<open>
  Claim C8.  \<^verbatim>\<open>ensureColorInPalette\<close> is idempotent: when a call returns a palette and
  an index, a second call on the returned palette with the same colour (or any colour
  with the same normal form) returns that palette unchanged and the same index; and a
  palette whose entries differ after normalisation stays so.
\<close>

theorem ensureColor_idempotent:
  assumes "ensureColorInPalette p color = Inr (p', i)"
  shows "ensureColorInPalette p' color = Inr (p', i)
         \<and> (\<forall>color'. normalizeColorString color' = normalizeColorString color
               \<longrightarrow> ensureColorInPalette p' color' = Inr (p', i))
         \<and> (distinct (map normalizeColorString p) \<longrightarrow> distinct (map normalizeColorString p'))"
  using ensureColorInPalette_found[OF assms] ensureColorInPalette_distinct[OF assms]
  by (simp add: ensureColorInPalette_def)

lemma ensure_default_new:
  "ensureColorInPalette DEFAULT_PALETTE ''#123456'' = Inr (DEFAULT_PALETTE @ [''#123456''], 16)"
  by code_simp

lemma normalize_spaced: "normalizeColorString '' #123456 '' = normalizeColorString ''#123456''"
  by code_simp

lemma distinct_default: "distinct (map normalizeColorString DEFAULT_PALETTE)"
  by code_simp

theorem ensureColor_idempotent_witness:
  "ensureColorInPalette DEFAULT_PALETTE ''#123456'' = Inr (DEFAULT_PALETTE @ [''#123456''], 16)
   \<and> ensureColorInPalette (DEFAULT_PALETTE @ [''#123456'']) ''#123456''
       = Inr (DEFAULT_PALETTE @ [''#123456''], 16)
   \<and> ensureColorInPalette (DEFAULT_PALETTE @ [''#123456'']) '' #123456 ''
       = Inr (DEFAULT_PALETTE @ [''#123456''], 16)
   \<and> distinct (map normalizeColorString (DEFAULT_PALETTE @ [''#123456'']))"
  using ensureColor_idempotent [OF ensure_default_new] ensure_default_new normalize_spaced distinct_default
  by blast


section \<open>Reading the event log\<close>

lemma lrange_all: "lrange xs 0 (- 1) = xs"
  by (cases xs) (simp_all add: lrange_def Let_def)

lemma isInteger_of_int [simp]: "isInteger (of_int k)"
  by (simp add: isInteger_def)

lemma redisLrange_all: "redisLrange xs 0 (- 1) = Inr xs"
proof -
  have "\<lfloor>- 1 :: rat\<rfloor> = - 1" using floor_of_int[of "- 1", where ?'a = rat] by simp
  then show ?thesis
    using isInteger_of_int[of 0] isInteger_of_int[of "- 1"]
    by (simp add: redisLrange_def lrange_all)
qed




lemma parseEntry_appended: "parseEntry (JString (Some (JEventObject e))) = Some e"
  by (simp add: parseEntry_def decodeLayers_def)


lemma events_exampleLog:
  "List.map_filter parseEntry (events_v1 exampleLog) =
     [ToolUsedEvent Get_canvas ''{}'' 1, PixelSetEvent 0 0 (Some ''#ffffff'') 0 2 Mcp,
      ToolUsedEvent Get_events ''{}'' 3]"
  "List.map_filter parseEntry (drop (length (events_v1 exampleLog) - 2) (events_v1 exampleLog)) =
     [PixelSetEvent 0 0 (Some ''#ffffff'') 0 2 Mcp, ToolUsedEvent Get_events ''{}'' 3]"
  "List.map_filter parseEntry (drop (length (events_v1 exampleLog) - 3) (events_v1 exampleLog)) =
     [PixelSetEvent 0 0 (Some ''#ffffff'') 0 2 Mcp, ToolUsedEvent Get_events ''{}'' 3]"
  "List.map_filter parseEntry (drop (length (events_v1 exampleLog) - 4) (events_v1 exampleLog)) =
     [ToolUsedEvent Get_canvas ''{}'' 1, PixelSetEvent 0 0 (Some ''#ffffff'') 0 2 Mcp,
      ToolUsedEvent Get_events ''{}'' 3]"
  by (simp_all add: exampleLog_def parseEntry_def decodeLayers_def List.map_filter_simps)









text \<open>
  Claim C10.  When the limit is left out, is not a number, or is a number that is not
  greater than 0, \<^verbatim>\<open>getCanvasEvents\<close> returns what it returns without a limit: every
  entry of the log that parses to an event, oldest first.
\<close>

theorem getCanvasEvents_no_positive_limit:
  assumes "limit = LimitOmitted \<or> limit = LimitNotNumber \<or> (\<exists>n. limit = LimitNumber n \<and> n \<le> 0)"
  shows "getCanvasEvents limit s = Inr (List.map_filter parseEntry (events_v1 s))
         \<and> getCanvasEvents limit s = getCanvasEvents LimitOmitted s"
  using assms by (auto simp: getCanvasEvents_def positiveLimit_def redisLrange_all)

theorem getCanvasEvents_no_positive_limit_witness:
  "getCanvasEvents (LimitNumber 0) exampleLog
       = Inr [ToolUsedEvent Get_canvas ''{}'' 1, PixelSetEvent 0 0 (Some ''#ffffff'') 0 2 Mcp,
              ToolUsedEvent Get_events ''{}'' 3]
   \<and> getCanvasEvents (LimitNumber (- 5)) exampleLog
       = Inr [ToolUsedEvent Get_canvas ''{}'' 1, PixelSetEvent 0 0 (Some ''#ffffff'') 0 2 Mcp,
              ToolUsedEvent Get_events ''{}'' 3]
   \<and> getCanvasEvents (LimitNumber (- 1 / 2)) exampleLog
       = Inr [ToolUsedEvent Get_canvas ''{}'' 1, PixelSetEvent 0 0 (Some ''#ffffff'') 0 2 Mcp,
              ToolUsedEvent Get_events ''{}'' 3]
   \<and> getCanvasEvents LimitNotNumber exampleLog
       = Inr [ToolUsedEvent Get_canvas ''{}'' 1, PixelSetEvent 0 0 (Some ''#ffffff'') 0 2 Mcp,
              ToolUsedEvent Get_events ''{}'' 3]"
  using getCanvasEvents_no_positive_limit [of "LimitNumber 0" exampleLog]
    getCanvasEvents_no_positive_limit [of "LimitNumber (- 5)" exampleLog]
    getCanvasEvents_no_positive_limit [of "LimitNumber (- 1 / 2)" exampleLog]
    getCanvasEvents_no_positive_limit [of LimitNotNumber exampleLog]
  by (simp add: events_exampleLog)


section \<open>The canvas service\<close>

subsection \<open>Reading the canvas\<close>

lemma getCanvas_cases:
  "(canvas_v1 s = None \<and> getCanvas s = (initialState, s\<lparr>canvas_v1 := Some initialState\<rparr>))
   \<or> (\<exists>st. canvas_v1 s = Some st \<and> getCanvas s = (st, s))"
  by (cases "canvas_v1 s") (simp_all add: getCanvas_def)

lemma getCanvas_stored: "canvas_v1 (snd (getCanvas s)) = Some (fst (getCanvas s))"
  using getCanvas_cases[of s] by auto

lemma getCanvas_events [simp]: "events_v1 (snd (getCanvas s)) = events_v1 s"
  using getCanvas_cases[of s] by auto

lemma getCanvas_again [simp]: "getCanvas (snd (getCanvas s)) = (fst (getCanvas s), snd (getCanvas s))"
  using getCanvas_cases[of s] by (auto simp: getCanvas_def)

lemma getCanvas_present: "canvas_v1 s = Some st \<Longrightarrow> getCanvas s = (st, s)"
  by (simp add: getCanvas_def)

lemma getCanvas_after_set [simp]: "getCanvas (s\<lparr>canvas_v1 := Some st\<rparr>) = (st, s\<lparr>canvas_v1 := Some st\<rparr>)"
  by (simp add: getCanvas_def)

lemma getCanvas_appendEventToLog [simp]:
  "fst (getCanvas (appendEventToLog e s)) = fst (getCanvas s)"
  by (cases "canvas_v1 s") (simp_all add: getCanvas_def appendEventToLog_def)

lemma setPixel_rejects:
  assumes "x < 0 \<or> y < 0 \<or> width (meta (fst (getCanvas s))) \<le> x \<or> height (meta (fst (getCanvas s))) \<le> y"
  shows "setPixel x y color source now s = (Inl OutOfBounds, snd (getCanvas s))"
  using assms by (auto simp: setPixel_def Let_def split: prod.splits)


subsection \<open>Writing one pixel\<close>

lemma ensureColorInPalette_index:
  assumes "ensureColorInPalette p color = Inr (p', i)"
  shows "i < length p'" "normalizeColorString (p' ! i) = normalizeColorString color"
  using findIndex_Some[OF ensureColorInPalette_found[OF assms]] by auto

lemma setPixel_accepts:
  assumes cur: "cur = fst (getCanvas s)"
    and bounds: "0 \<le> x" "x < width (meta cur)" "0 \<le> y" "y < height (meta cur)"
    and color: "trim color \<noteq> []"
    and ens: "ensureColorInPalette (palette (meta cur)) color = Inr (p, i)"
    and dec: "decodePixelsFromBase64 (pixelsBase64 cur) (width (meta cur) * height (meta cur)) = Inr pixels"
    and upd: "updated = \<lparr>meta = (meta cur)\<lparr>palette := p\<rparr>,
                pixelsBase64 = encodePixelsToBase64 (uint8Set pixels (indexFor x y (width (meta cur))) i)\<rparr>"
  shows "setPixel x y color source now s =
           (Inr updated,
            appendEventToLog
              (PixelSetEvent x y (Some (p ! i)) i now (case source of Some src \<Rightarrow> src | None \<Rightarrow> System))
              ((snd (getCanvas s))\<lparr>canvas_v1 := Some updated\<rparr>))"
proof -
  obtain s1 where g: "getCanvas s = (cur, s1)" using cur by (cases "getCanvas s") simp
  have a: "arrayAt p i = Some (p ! i)"
    using ensureColorInPalette_index(1)[OF ens] by (simp add: arrayAt_def)
  show ?thesis
    using bounds color ens dec unfolding setPixel_def g upd
    by (simp add: Let_def a not_le not_less)
qed

lemma setPixel_Inr:
  assumes "setPixel x y color source now s = (Inr st', s')"
  shows "\<exists>p i pixels.
           0 \<le> x \<and> x < width (meta (fst (getCanvas s))) \<and> 0 \<le> y \<and> y < height (meta (fst (getCanvas s)))
         \<and> trim color \<noteq> []
         \<and> ensureColorInPalette (palette (meta (fst (getCanvas s)))) color = Inr (p, i)
         \<and> decodePixelsFromBase64 (pixelsBase64 (fst (getCanvas s)))
               (width (meta (fst (getCanvas s))) * height (meta (fst (getCanvas s)))) = Inr pixels"
proof -
  obtain cur s1 where g: "getCanvas s = (cur, s1)" by (cases "getCanvas s")
  show ?thesis
    using assms unfolding setPixel_def g
    by (auto simp: Let_def not_le not_less split: if_splits sum.splits prod.splits)
qed

lemma decode_encode [simp]:
  "decodePixelsFromBase64 (encodePixelsToBase64 grid) n = (if of_nat (length grid) = n then Inr grid else Inl LengthMismatch)"
  by (simp add: decodePixelsFromBase64_def encodePixelsToBase64_def base64Decode_base64Encode)

lemma length_createEmptyPixels_default: "length (createEmptyPixels 64 64 0) = 4096"
  by (simp add: createEmptyPixels_def)

lemma ensure_default_white: "ensureColorInPalette DEFAULT_PALETTE ''#FFF'' = Inr (DEFAULT_PALETTE, 0)"
  by code_simp

lemma normalize_FFF: "normalizeColorString ''#FFF'' = ''#ffffff''"
  by code_simp

lemma trim_FFF: "trim ''#FFF'' \<noteq> []"
  by code_simp

lemma uint8Set_default: "uint8Set (createEmptyPixels 64 64 0) (indexFor 0 0 64) 0 = createEmptyPixels 64 64 0"
proof -
  have "(replicate 4096 (0::byte))[0 := 0] = replicate 4096 0"
    using list_update_id[of "replicate 4096 (0::byte)" 0] by simp
  then show ?thesis
    by (simp add: uint8Set_def indexFor_def isInteger_def createEmptyPixels_def)
qed

lemma getCanvas_smallCanvas:
  "getCanvas smallCanvas =
     (\<lparr>meta = \<lparr>width = 2, height = 2, palette = [''#ffffff'', ''#000000'']\<rparr>,
       pixelsBase64 = encodePixelsToBase64 [0, 0, 0, 0]\<rparr>, smallCanvas)"
  by (simp add: getCanvas_def smallCanvas_def)

lemma events_smallCanvas: "events_v1 smallCanvas = []"
  by (simp add: smallCanvas_def)

lemma ensure_small_red:
  "ensureColorInPalette [''#ffffff'', ''#000000''] ''#F00'' = Inr ([''#ffffff'', ''#000000'', ''#ff0000''], 2)"
  by code_simp

lemma isInteger_half: "\<not> isInteger (1 / 2)"
  by code_simp

lemma trim_F00: "trim ''#F00'' \<noteq> []"
  by code_simp


text \<open>
  Claim C6.  When \<open>x\<close> is negative, equal to the width or beyond it, or \<open>y\<close> is negative,
  equal to the height or beyond it, \<^verbatim>\<open>setPixel\<close> fails with the out-of-bounds error and
  appends no event.
  The store is left as the read at the start of the call leaves it: a canvas that is
  stored is untouched, and the store as a whole is unchanged; a canvas that is absent
  has been initialised to the default state by that read, as any read does.  What
  \<^verbatim>\<open>getCanvas\<close> returns afterwards is what it returned before.
\<close>

theorem setPixel_out_of_bounds:
  assumes "x < 0 \<or> y < 0 \<or> width (meta (fst (getCanvas s))) \<le> x \<or> height (meta (fst (getCanvas s))) \<le> y"
  shows "fst (setPixel x y color source now s) = Inl OutOfBounds
         \<and> snd (setPixel x y color source now s) = snd (getCanvas s)
         \<and> events_v1 (snd (setPixel x y color source now s)) = events_v1 s
         \<and> fst (getCanvas (snd (setPixel x y color source now s))) = fst (getCanvas s)
         \<and> (canvas_v1 s \<noteq> None \<longrightarrow> snd (setPixel x y color source now s) = s)"
proof -
  from assms have "setPixel x y color source now s = (Inl OutOfBounds, snd (getCanvas s))"
    by (rule setPixel_rejects)
  then show ?thesis using getCanvas_cases[of s] by auto
qed

theorem setPixel_out_of_bounds_witness:
  "fst (setPixel 2 0 ''#fff'' None 0 smallCanvas) = Inl OutOfBounds
   \<and> snd (setPixel 2 0 ''#fff'' None 0 smallCanvas) = smallCanvas
   \<and> fst (setPixel 0 (- 1) ''#fff'' None 0 smallCanvas) = Inl OutOfBounds
   \<and> events_v1 (snd (setPixel 0 (- 1) ''#fff'' None 0 smallCanvas)) = []"
proof -
  have a: "(2::rat) < 0 \<or> (0::rat) < 0 \<or> width (meta (fst (getCanvas smallCanvas))) \<le> 2
           \<or> height (meta (fst (getCanvas smallCanvas))) \<le> 0"
    by (simp add: getCanvas_smallCanvas)
  have b: "(0::rat) < 0 \<or> (- 1::rat) < 0 \<or> width (meta (fst (getCanvas smallCanvas))) \<le> 0
           \<or> height (meta (fst (getCanvas smallCanvas))) \<le> - 1"
    by simp
  show ?thesis
    using setPixel_out_of_bounds [OF a, of "''#fff''" None 0] setPixel_out_of_bounds [OF b, of "''#fff''" None 0]
    by (simp add: getCanvas_smallCanvas events_smallCanvas)
qed

text \<open>On a store without a canvas the failed call leaves the default canvas behind.\<close>

theorem setPixel_out_of_bounds_counterexample:
  "fst (setPixel (- 1) 0 ''#fff'' None 0 \<lparr>canvas_v1 = None, events_v1 = []\<rparr>) = Inl OutOfBounds
   \<and> canvas_v1 \<lparr>canvas_v1 = None, events_v1 = []\<rparr> = None
   \<and> canvas_v1 (snd (setPixel (- 1) 0 ''#fff'' None 0 \<lparr>canvas_v1 = None, events_v1 = []\<rparr>))
       = Some initialState"
  by (simp add: setPixel_rejects getCanvas_def)


text \<open>
  Claim C1, at its concrete scenario.  On the default canvas, \<^verbatim>\<open>setPixel(0, 0, "#FFF")\<close>
  succeeds, leaves the grid and the palette as they were, and appends one
  \<^verbatim>\<open>pixel_set\<close> event with colour index 0.  The colour of the event is the palette
  entry \<^verbatim>\<open>"#FFFFFF"\<close> as the default palette spells it, which is not the normal form
  \<^verbatim>\<open>"#ffffff"\<close> of the input.
\<close>

theorem setPixel_FFF_on_default_canvas:
  "setPixel 0 0 ''#FFF'' source now \<lparr>canvas_v1 = None, events_v1 = []\<rparr> =
     (Inr initialState,
      \<lparr>canvas_v1 = Some initialState,
       events_v1 = [JString (Some (JEventObject
          (PixelSetEvent 0 0 (Some ''#FFFFFF'') 0 now (case source of Some src \<Rightarrow> src | None \<Rightarrow> System))))]\<rparr>)
   \<and> normalizeColorString ''#FFF'' = ''#ffffff''
   \<and> ''#FFFFFF'' \<noteq> normalizeColorString ''#FFF''"
proof -
  let ?s = "\<lparr>canvas_v1 = None, events_v1 = []\<rparr>"
  have g: "getCanvas ?s = (initialState, ?s\<lparr>canvas_v1 := Some initialState\<rparr>)"
    by (simp add: getCanvas_def)
  have m: "width (meta initialState) = 64" "height (meta initialState) = 64"
    "palette (meta initialState) = DEFAULT_PALETTE"
    "pixelsBase64 initialState = encodePixelsToBase64 (createEmptyPixels 64 64 0)"
    by (simp_all add: initialState_def)
  have u: "\<lparr>meta = (meta initialState)\<lparr>palette := DEFAULT_PALETTE\<rparr>,
            pixelsBase64 = encodePixelsToBase64 (uint8Set (createEmptyPixels 64 64 0) (indexFor 0 0 64) 0)\<rparr>
           = initialState"
    by (simp add: uint8Set_default initialState_def)
  have p0: "DEFAULT_PALETTE ! 0 = ''#FFFFFF''" by (simp add: DEFAULT_PALETTE_def)
  have "setPixel 0 0 ''#FFF'' source now ?s =
     (Inr initialState,
      appendEventToLog
        (PixelSetEvent 0 0 (Some (DEFAULT_PALETTE ! 0)) 0 now (case source of Some src \<Rightarrow> src | None \<Rightarrow> System))
        ((snd (getCanvas ?s))\<lparr>canvas_v1 := Some initialState\<rparr>))"
    by (rule setPixel_accepts[where cur = initialState and pixels = "createEmptyPixels 64 64 0"])
       (simp_all add: g m trim_FFF ensure_default_white length_createEmptyPixels_default u)
  then show ?thesis
    by (simp add: g p0 appendEventToLog_def normalize_FFF)
qed

subsection \<open>Writing a batch\<close>

lemma ensureColorInPalette_paletteIndex:
  "ensureColorInPalette p color = Inr (p', i) \<Longrightarrow> paletteIndex p' color = Some i"
  unfolding paletteIndex_def by (rule ensureColorInPalette_found)

lemma paletteIndex_prefix:
  "paletteIndex p color = Some i \<Longrightarrow> prefix p p' \<Longrightarrow> paletteIndex p' color = Some i"
  unfolding paletteIndex_def by (rule findIndex_prefix)

lemma paletteIndex_less: "paletteIndex p color = Some i \<Longrightarrow> i < length p"
  unfolding paletteIndex_def using findIndex_Some by blast

lemma ensureColorInPalette_Inl:
  "ensureColorInPalette p color = Inl e \<Longrightarrow> e = PaletteFull \<and> 256 \<le> length p"
  by (auto simp: ensureColorInPalette_def Let_def split: option.splits if_splits)

lemma ensureColorInPalette_length:
  "ensureColorInPalette p color = Inr (p', i) \<Longrightarrow> length p' \<le> Suc (length p)"
  by (auto simp: ensureColorInPalette_def Let_def split: option.splits if_splits)

lemma applyUpdates_step:
  assumes "validUpdate w h u"
  shows "applyUpdates w h (u # us) p px =
           (case ensureColorInPalette p (upd_color u) of
              Inl e \<Rightarrow> Inl e
            | Inr (p', i) \<Rightarrow> applyUpdates w h us p' (uint8Set px (indexFor (upd_x u) (upd_y u) w) i))"
  using assms by (auto simp: validUpdate_def Let_def not_le)

lemma applyUpdates_invalid_head:
  assumes "\<not> validUpdate w h u"
  shows "applyUpdates w h (u # us) p px = Inl OutOfBounds \<or> applyUpdates w h (u # us) p px = Inl InvalidColor"
  using assms by (auto simp: validUpdate_def Let_def not_le not_less)

declare applyUpdates.simps(2) [simp del]

lemma applyUpdates_Inr:
  "applyUpdates w h us p px = Inr (p', px') \<Longrightarrow>
     prefix p p'
     \<and> (\<forall>u \<in> set us. validUpdate w h u \<and> paletteIndex p' (upd_color u) \<noteq> None)
     \<and> px' = writesInInputOrder w p' us px"
proof (induction us arbitrary: p px)
  case Nil
  then show ?case by simp
next
  case (Cons u us)
  have v: "validUpdate w h u"
    using Cons.prems applyUpdates_invalid_head[of w h u us p px] by auto
  from Cons.prems obtain p1 i where
    e: "ensureColorInPalette p (upd_color u) = Inr (p1, i)" and
    r: "applyUpdates w h us p1 (uint8Set px (indexFor (upd_x u) (upd_y u) w) i) = Inr (p', px')"
    unfolding applyUpdates_step[OF v] by (auto split: sum.splits)
  from Cons.IH[OF r] have
    ih: "prefix p1 p'" "\<forall>u \<in> set us. validUpdate w h u \<and> paletteIndex p' (upd_color u) \<noteq> None"
      "px' = writesInInputOrder w p' us (uint8Set px (indexFor (upd_x u) (upd_y u) w) i)"
    by auto
  have pi: "paletteIndex p' (upd_color u) = Some i"
    using ensureColorInPalette_paletteIndex[OF e] ih(1) by (rule paletteIndex_prefix)
  have "prefix p p'"
    using ensureColorInPalette_prefix[OF e] ih(1) by (rule prefix_order.trans)
  then show ?case using v pi ih by simp
qed

lemma applyUpdates_Inl:
  "applyUpdates w h us p px = Inl e \<Longrightarrow> e \<in> {OutOfBounds, InvalidColor, PaletteFull}"
proof (induction us arbitrary: p px)
  case Nil
  then show ?case by simp
next
  case (Cons u us)
  show ?case
  proof (cases "validUpdate w h u")
    case True
    show ?thesis
    proof (cases "ensureColorInPalette p (upd_color u)")
      case (Inl e')
      then show ?thesis
        using Cons.prems ensureColorInPalette_Inl[OF Inl] by (simp add: applyUpdates_step[OF True])
    next
      case (Inr r)
      then show ?thesis
        using Cons.prems Cons.IH by (cases r) (simp add: applyUpdates_step[OF True])
    qed
  next
    case False
    then show ?thesis using Cons.prems applyUpdates_invalid_head[OF False, of us p px] by auto
  qed
qed

lemma applyUpdates_room:
  "length p + length us \<le> 256 \<Longrightarrow> applyUpdates w h us p px \<noteq> Inl PaletteFull"
proof (induction us arbitrary: p px)
  case Nil
  then show ?case by simp
next
  case (Cons u us)
  show ?case
  proof (cases "validUpdate w h u")
    case True
    show ?thesis
    proof (cases "ensureColorInPalette p (upd_color u)")
      case (Inl e')
      then show ?thesis using Cons.prems ensureColorInPalette_Inl[OF Inl] by simp
    next
      case (Inr r)
      obtain p1 i where r: "r = (p1, i)" by (cases r)
      have "length p1 + length us \<le> 256"
        using ensureColorInPalette_length[OF Inr[unfolded r]] Cons.prems by simp
      from Cons.IH[OF this] show ?thesis by (simp add: applyUpdates_step[OF True] Inr r)
    qed
  next
    case False
    then show ?thesis using applyUpdates_invalid_head[OF False, of us p px] by auto
  qed
qed

lemma applyUpdates_invalid:
  assumes "\<exists>u \<in> set us. \<not> validUpdate w h u"
  shows "\<exists>e \<in> {OutOfBounds, InvalidColor, PaletteFull}. applyUpdates w h us p px = Inl e"
proof (cases "applyUpdates w h us p px")
  case (Inl e)
  then show ?thesis using applyUpdates_Inl[OF Inl] by simp
next
  case (Inr r)
  then show ?thesis using assms applyUpdates_Inr[of w h us p px "fst r" "snd r"] by auto
qed

lemma appendPixelEvents_found:
  "\<forall>u \<in> set us. paletteIndex p (upd_color u) \<noteq> None \<Longrightarrow>
   appendPixelEvents p source now us s =
     (None, s\<lparr>events_v1 := events_v1 s @
        map (\<lambda>u. JString (Some (JEventObject (eventAgainstPalette p source now u)))) us\<rparr>)"
proof (induction us arbitrary: s)
  case Nil
  then show ?case by simp
next
  case (Cons u us)
  from Cons.prems obtain i where i: "paletteIndex p (upd_color u) = Some i" by auto
  then have e: "ensureColorInPalette p (upd_color u) = Inr (p, i)"
    unfolding paletteIndex_def by (rule ensureColorInPalette_of_found)
  have "\<forall>u \<in> set us. paletteIndex p (upd_color u) \<noteq> None" using Cons.prems by simp
  from Cons.IH[OF this] show ?case
    by (simp add: e i eventAgainstPalette_def appendEventToLog_def Let_def)
qed

lemma appendPixelEvents_canvas:
  "canvas_v1 (snd (appendPixelEvents p source now us s)) = canvas_v1 s"
  by (induction us arbitrary: s)
     (auto simp: appendEventToLog_def Let_def split: sum.splits prod.splits)

lemma eventAgainstPalette_index:
  assumes "paletteIndex p (upd_color u) = Some i"
  shows "eventAgainstPalette p source now u =
           PixelSetEvent (upd_x u) (upd_y u) (Some (p ! i)) i now
             (case source of Some src \<Rightarrow> src | None \<Rightarrow> System)"
  using assms paletteIndex_less[OF assms] by (simp add: eventAgainstPalette_def arrayAt_def)

lemma setPixels_Inl:
  assumes "applyUpdates (width (meta (fst (getCanvas s)))) (height (meta (fst (getCanvas s)))) us
             (palette (meta (fst (getCanvas s)))) pixels = Inl e"
    and "decodePixelsFromBase64 (pixelsBase64 (fst (getCanvas s)))
           (width (meta (fst (getCanvas s))) * height (meta (fst (getCanvas s)))) = Inr pixels"
    and "us \<noteq> []"
  shows "setPixels us source now s = (Inl e, snd (getCanvas s))"
proof -
  obtain cur s1 where g: "getCanvas s = (cur, s1)" by (cases "getCanvas s")
  show ?thesis using assms unfolding setPixels_def g by (simp add: Let_def)
qed

lemma setPixels_LengthMismatch:
  assumes "decodePixelsFromBase64 (pixelsBase64 (fst (getCanvas s)))
           (width (meta (fst (getCanvas s))) * height (meta (fst (getCanvas s)))) = Inl e"
    and "us \<noteq> []"
  shows "setPixels us source now s = (Inl LengthMismatch, snd (getCanvas s))"
proof -
  obtain cur s1 where g: "getCanvas s = (cur, s1)" by (cases "getCanvas s")
  have "e = LengthMismatch"
    using assms(1) by (auto simp: decodePixelsFromBase64_def Let_def split: if_splits)
  then show ?thesis using assms unfolding setPixels_def g by (simp add: Let_def)
qed

lemma setPixels_Inr_applied:
  assumes ap: "applyUpdates (width (meta cur)) (height (meta cur)) us (palette (meta cur)) pixels = Inr (p, px)"
    and dec: "decodePixelsFromBase64 (pixelsBase64 cur) (width (meta cur) * height (meta cur)) = Inr pixels"
    and ne: "us \<noteq> []" and cur: "cur = fst (getCanvas s)"
    and upd: "updated = \<lparr>meta = (meta cur)\<lparr>palette := p\<rparr>, pixelsBase64 = encodePixelsToBase64 px\<rparr>"
  shows "setPixels us source now s =
           (Inr updated,
            (snd (getCanvas s))\<lparr>canvas_v1 := Some updated,
               events_v1 := events_v1 s @
                 map (\<lambda>u. JString (Some (JEventObject (eventAgainstPalette p source now u)))) us\<rparr>)"
proof -
  obtain s1 where g: "getCanvas s = (cur, s1)" using cur by (cases "getCanvas s") simp
  have ev: "events_v1 s1 = events_v1 s" using getCanvas_events[of s] by (simp add: g)
  have found: "\<forall>u \<in> set us. paletteIndex p (upd_color u) \<noteq> None"
    using applyUpdates_Inr[OF ap] by simp
  show ?thesis
    using ap dec ne unfolding setPixels_def g upd
    by (simp add: Let_def appendPixelEvents_found[OF found] ev)
qed


text \<open>
  Claim C4.  When \<^verbatim>\<open>setPixels\<close> succeeds, the stored grid is decoded once and the
  persisted grid is that grid with the updates written in input order; the persisted
  palette extends the one read; and the log gains one \<^verbatim>\<open>pixel_set\<close> event per update,
  in input order, whose colour index is the index of the update's colour in the
  persisted palette (so it is smaller than that palette's length) and whose colour is
  the entry at that index.
\<close>

theorem setPixels_success:
  assumes ok: "setPixels updates source now s = (Inr st', s')"
    and cur: "cur = fst (getCanvas s)"
  shows "\<exists>pixels.
           decodePixelsFromBase64 (pixelsBase64 cur) (width (meta cur) * height (meta cur)) = Inr pixels
         \<and> pixelsBase64 st' =
             encodePixelsToBase64 (writesInInputOrder (width (meta cur)) (palette (meta st')) updates pixels)
         \<and> prefix (palette (meta cur)) (palette (meta st'))
         \<and> canvas_v1 s' = Some st'
         \<and> events_v1 s' = events_v1 s @
             map (\<lambda>u. JString (Some (JEventObject (eventAgainstPalette (palette (meta st')) source now u)))) updates
         \<and> (\<forall>u \<in> set updates.
               \<exists>i. paletteIndex (palette (meta st')) (upd_color u) = Some i
                 \<and> i < length (palette (meta st'))
                 \<and> eventAgainstPalette (palette (meta st')) source now u =
                     PixelSetEvent (upd_x u) (upd_y u) (Some (palette (meta st') ! i)) i now
                       (case source of Some src \<Rightarrow> src | None \<Rightarrow> System))"
proof -
  have ne: "updates \<noteq> []" using ok by (auto simp: setPixels_def)
  obtain pixels where dec:
    "decodePixelsFromBase64 (pixelsBase64 cur) (width (meta cur) * height (meta cur)) = Inr pixels"
    using ok setPixels_LengthMismatch[OF _ ne, of s _ source now] unfolding cur
    by (cases "decodePixelsFromBase64 (pixelsBase64 (fst (getCanvas s)))
           (width (meta (fst (getCanvas s))) * height (meta (fst (getCanvas s))))") auto
  obtain p px where ap:
    "applyUpdates (width (meta cur)) (height (meta cur)) updates (palette (meta cur)) pixels = Inr (p, px)"
    using ok setPixels_Inl[OF _ dec[unfolded cur] ne, of _ source now] unfolding cur
    by (cases "applyUpdates (width (meta (fst (getCanvas s)))) (height (meta (fst (getCanvas s)))) updates
             (palette (meta (fst (getCanvas s)))) pixels") auto
  define updated where "updated = \<lparr>meta = (meta cur)\<lparr>palette := p\<rparr>, pixelsBase64 = encodePixelsToBase64 px\<rparr>"
  have r: "setPixels updates source now s =
           (Inr updated,
            (snd (getCanvas s))\<lparr>canvas_v1 := Some updated,
               events_v1 := events_v1 s @
                 map (\<lambda>u. JString (Some (JEventObject (eventAgainstPalette p source now u)))) updates\<rparr>)"
    using ap dec ne cur updated_def by (rule setPixels_Inr_applied)
  have st': "st' = updated" and s': "s' = (snd (getCanvas s))\<lparr>canvas_v1 := Some updated,
               events_v1 := events_v1 s @
                 map (\<lambda>u. JString (Some (JEventObject (eventAgainstPalette p source now u)))) updates\<rparr>"
    using ok r by auto
  have pal: "palette (meta st') = p" by (simp add: st' updated_def)
  note A = applyUpdates_Inr[OF ap]
  have each: "\<forall>u \<in> set updates.
               \<exists>i. paletteIndex p (upd_color u) = Some i \<and> i < length p
                 \<and> eventAgainstPalette p source now u =
                     PixelSetEvent (upd_x u) (upd_y u) (Some (p ! i)) i now
                       (case source of Some src \<Rightarrow> src | None \<Rightarrow> System)"
  proof
    fix u assume "u \<in> set updates"
    with A obtain i where i: "paletteIndex p (upd_color u) = Some i" by auto
    show "\<exists>i. paletteIndex p (upd_color u) = Some i \<and> i < length p
                 \<and> eventAgainstPalette p source now u =
                     PixelSetEvent (upd_x u) (upd_y u) (Some (p ! i)) i now
                       (case source of Some src \<Rightarrow> src | None \<Rightarrow> System)"
      using i paletteIndex_less[OF i] eventAgainstPalette_index[OF i] by blast
  qed
  show ?thesis
    unfolding pal
    using dec A each by (intro exI[of _ pixels]) (simp add: st' s' updated_def)
qed

lemma setPixels_small_batch:
  "setPixels [PixelUpdate 0 0 ''#abc'', PixelUpdate 0 0 ''#def''] None 7 smallCanvas =
     (Inr \<lparr>meta = \<lparr>width = 2, height = 2, palette = [''#ffffff'', ''#000000'', ''#aabbcc'', ''#ddeeff'']\<rparr>,
           pixelsBase64 = ''AwAAAA==''\<rparr>,
      \<lparr>canvas_v1 = Some \<lparr>meta = \<lparr>width = 2, height = 2,
                                   palette = [''#ffffff'', ''#000000'', ''#aabbcc'', ''#ddeeff'']\<rparr>,
                          pixelsBase64 = ''AwAAAA==''\<rparr>,
       events_v1 = [JString (Some (JEventObject (PixelSetEvent 0 0 (Some ''#aabbcc'') 2 7 System))),
                    JString (Some (JEventObject (PixelSetEvent 0 0 (Some ''#ddeeff'') 3 7 System)))]\<rparr>)"
  by code_simp

theorem setPixels_success_witness:
  "setPixels [PixelUpdate 0 0 ''#abc'', PixelUpdate 0 0 ''#def''] None 7 smallCanvas =
     (Inr \<lparr>meta = \<lparr>width = 2, height = 2, palette = [''#ffffff'', ''#000000'', ''#aabbcc'', ''#ddeeff'']\<rparr>,
           pixelsBase64 = ''AwAAAA==''\<rparr>,
      \<lparr>canvas_v1 = Some \<lparr>meta = \<lparr>width = 2, height = 2,
                                   palette = [''#ffffff'', ''#000000'', ''#aabbcc'', ''#ddeeff'']\<rparr>,
                          pixelsBase64 = ''AwAAAA==''\<rparr>,
       events_v1 = [JString (Some (JEventObject (PixelSetEvent 0 0 (Some ''#aabbcc'') 2 7 System))),
                    JString (Some (JEventObject (PixelSetEvent 0 0 (Some ''#ddeeff'') 3 7 System)))]\<rparr>)
   \<and> ''AwAAAA=='' = encodePixelsToBase64
        (writesInInputOrder 2 [''#ffffff'', ''#000000'', ''#aabbcc'', ''#ddeeff'']
           [PixelUpdate 0 0 ''#abc'', PixelUpdate 0 0 ''#def''] [0, 0, 0, 0])
   \<and> eventAgainstPalette [''#ffffff'', ''#000000'', ''#aabbcc'', ''#ddeeff''] None 7 (PixelUpdate 0 0 ''#def'')
       = PixelSetEvent 0 0 (Some ''#ddeeff'') 3 7 System
   \<and> (3::nat) < length [''#ffffff'', ''#000000'', ''#aabbcc'', ''#ddeeff'']"
proof -
  have pi: "paletteIndex [''#ffffff'', ''#000000'', ''#aabbcc'', ''#ddeeff''] ''#def'' = Some 3"
    by code_simp
  from setPixels_success [OF setPixels_small_batch refl]
  obtain pixels where
    d: "decodePixelsFromBase64 (pixelsBase64 (fst (getCanvas smallCanvas)))
          (width (meta (fst (getCanvas smallCanvas))) * height (meta (fst (getCanvas smallCanvas)))) = Inr pixels"
    and w: "''AwAAAA=='' = encodePixelsToBase64
        (writesInInputOrder (width (meta (fst (getCanvas smallCanvas)))) [''#ffffff'', ''#000000'', ''#aabbcc'', ''#ddeeff'']
           [PixelUpdate 0 0 ''#abc'', PixelUpdate 0 0 ''#def''] pixels)"
    and e: "\<exists>i. paletteIndex [''#ffffff'', ''#000000'', ''#aabbcc'', ''#ddeeff''] ''#def'' = Some i
          \<and> i < length [''#ffffff'', ''#000000'', ''#aabbcc'', ''#ddeeff'']
          \<and> eventAgainstPalette [''#ffffff'', ''#000000'', ''#aabbcc'', ''#ddeeff''] None 7 (PixelUpdate 0 0 ''#def'')
              = PixelSetEvent 0 0 (Some ([''#ffffff'', ''#000000'', ''#aabbcc'', ''#ddeeff''] ! i)) i 7 System"
    by auto
  from d have "pixels = [0, 0, 0, 0]" by (simp add: getCanvas_smallCanvas)
  with w e pi show ?thesis
    by (auto simp: setPixels_small_batch getCanvas_smallCanvas)
qed

lemma length_fullPalette: "length fullPalette = 256"
  by code_simp

lemma ensure_full: "ensureColorInPalette fullPalette ''#ff0000'' = Inl PaletteFull"
  by code_simp

lemma stepError_Some:
  "stepError w h p u = Some e \<Longrightarrow> applyUpdates w h (u # us) p px = Inl e"
  by (auto simp: stepError_def applyUpdates.simps Let_def ensureColorInPalette_def paletteIndex_def
      not_le not_less split: if_splits option.splits)

lemma stepError_None:
  "stepError w h p u = None \<Longrightarrow>
   \<exists>i. applyUpdates w h (u # us) p px =
         applyUpdates w h us (paletteAfter p [u]) (uint8Set px (indexFor (upd_x u) (upd_y u) w) i)"
  by (auto simp: stepError_def applyUpdates.simps Let_def ensureColorInPalette_def paletteIndex_def
      not_le not_less split: if_splits option.splits)

lemma stepError_None_valid: "stepError w h p u = None \<Longrightarrow> validUpdate w h u"
  by (auto simp: stepError_def validUpdate_def split: if_splits)

lemma paletteAfter_Cons: "paletteAfter p (u # us) = paletteAfter (paletteAfter p [u]) us"
  by simp

lemma applyUpdates_first_failure:
  "applyUpdates w h us p px = Inl e \<Longrightarrow>
   \<exists>k<length us.
      (\<forall>j<k. stepError w h (paletteAfter p (take j us)) (us ! j) = None)
      \<and> stepError w h (paletteAfter p (take k us)) (us ! k) = Some e"
proof (induction us arbitrary: p px)
  case Nil
  then show ?case by simp
next
  case (Cons u us)
  show ?case
  proof (cases "stepError w h p u")
    case (Some e')
    with Cons.prems have "e' = e" using stepError_Some[OF Some, of us px] by simp
    with Some have "stepError w h (paletteAfter p (take 0 (u # us))) ((u # us) ! 0) = Some e" by simp
    then show ?thesis by (intro exI[of _ 0]) simp
  next
    case None
    from stepError_None[OF None, of us px] Cons.prems obtain i where
      "applyUpdates w h us (paletteAfter p [u]) (uint8Set px (indexFor (upd_x u) (upd_y u) w) i) = Inl e"
      by auto
    from Cons.IH[OF this] obtain k where k: "k < length us"
      "\<forall>j<k. stepError w h (paletteAfter (paletteAfter p [u]) (take j us)) (us ! j) = None"
      "stepError w h (paletteAfter (paletteAfter p [u]) (take k us)) (us ! k) = Some e"
      by blast
    have "\<forall>j<Suc k. stepError w h (paletteAfter p (take j (u # us))) ((u # us) ! j) = None"
    proof (intro allI impI)
      fix j assume "j < Suc k"
      show "stepError w h (paletteAfter p (take j (u # us))) ((u # us) ! j) = None"
      proof (cases j)
        case 0
        then show ?thesis using None by simp
      next
        case (Suc j')
        with \<open>j < Suc k\<close> have "j' < k" by simp
        with k(2) show ?thesis unfolding Suc by (simp del: paletteAfter.simps add: paletteAfter_Cons[symmetric])
      qed
    qed
    moreover have "stepError w h (paletteAfter p (take (Suc k) (u # us))) ((u # us) ! Suc k) = Some e"
      using k(3) by (simp del: paletteAfter.simps add: paletteAfter_Cons[symmetric])
    ultimately show ?thesis using k(1) by (intro exI[of _ "Suc k"]) simp
  qed
qed

text \<open>
  Claim C3.  When some update of a batch fails the check of its coordinates or of its
  colour, \<^verbatim>\<open>setPixels\<close> fails, appends no event and leaves the store as the read at the
  start of the call leaves it (a stored canvas is untouched).  The error is the one of
  the first step that fails.  When the stored grid has the wrong length, that is the
  length-mismatch error, raised before any update is looked at.  Otherwise there is a
  first update \<open>k\<close> whose step has an error on the palette grown by the updates before
  it, all of which pass, and the call fails with that error: out of bounds when its
  coordinates fail, else invalid colour when its colour is blank, else palette full when
  its colour is new and the palette holds 256 colours or more.
\<close>

theorem setPixels_rejects_batch:
  assumes bad: "\<exists>u \<in> set updates. \<not> validUpdate (width (meta cur)) (height (meta cur)) u"
    and cur: "cur = fst (getCanvas s)"
  shows "(\<exists>e \<in> {OutOfBounds, InvalidColor, PaletteFull, LengthMismatch}.
            fst (setPixels updates source now s) = Inl e
          \<and> (e = LengthMismatch \<longrightarrow>
               decodePixelsFromBase64 (pixelsBase64 cur) (width (meta cur) * height (meta cur))
                 = Inl LengthMismatch)
          \<and> (e = PaletteFull \<longrightarrow> 256 < length (palette (meta cur)) + length updates))
         \<and> ((\<exists>e. decodePixelsFromBase64 (pixelsBase64 cur) (width (meta cur) * height (meta cur)) = Inl e)
               \<longrightarrow> fst (setPixels updates source now s) = Inl LengthMismatch)
         \<and> (\<forall>pixels.
               decodePixelsFromBase64 (pixelsBase64 cur) (width (meta cur) * height (meta cur)) = Inr pixels
               \<longrightarrow> (\<exists>k<length updates.
                      (\<forall>j<k. stepError (width (meta cur)) (height (meta cur))
                                (paletteAfter (palette (meta cur)) (take j updates)) (updates ! j) = None)
                    \<and> (\<exists>e. stepError (width (meta cur)) (height (meta cur))
                                (paletteAfter (palette (meta cur)) (take k updates)) (updates ! k) = Some e
                           \<and> fst (setPixels updates source now s) = Inl e)))
         \<and> snd (setPixels updates source now s) = snd (getCanvas s)
         \<and> events_v1 (snd (setPixels updates source now s)) = events_v1 s
         \<and> fst (getCanvas (snd (setPixels updates source now s))) = fst (getCanvas s)
         \<and> (canvas_v1 s \<noteq> None \<longrightarrow> snd (setPixels updates source now s) = s)"
proof -
  let ?w = "width (meta cur)" and ?h = "height (meta cur)"
  from bad have ne: "updates \<noteq> []" by auto
  have main: "\<exists>e \<in> {OutOfBounds, InvalidColor, PaletteFull, LengthMismatch}.
            setPixels updates source now s = (Inl e, snd (getCanvas s))
          \<and> (e = LengthMismatch \<longrightarrow>
               decodePixelsFromBase64 (pixelsBase64 cur) (?w * ?h) = Inl LengthMismatch)
          \<and> (e = PaletteFull \<longrightarrow> 256 < length (palette (meta cur)) + length updates)"
  proof (cases "decodePixelsFromBase64 (pixelsBase64 cur) (?w * ?h)")
    case (Inl e)
    then have e: "e = LengthMismatch"
      by (auto simp: decodePixelsFromBase64_def Let_def split: if_splits)
    have "setPixels updates source now s = (Inl LengthMismatch, snd (getCanvas s))"
      using Inl ne unfolding cur by (rule setPixels_LengthMismatch)
    then show ?thesis using Inl e by simp
  next
    case (Inr pixels)
    from applyUpdates_invalid[OF bad, of "palette (meta cur)" pixels]
    obtain e where e: "e \<in> {OutOfBounds, InvalidColor, PaletteFull}"
      "applyUpdates ?w ?h updates (palette (meta cur)) pixels = Inl e"
      by blast
    have r: "setPixels updates source now s = (Inl e, snd (getCanvas s))"
      using e(2) Inr ne unfolding cur by (rule setPixels_Inl)
    have "\<not> length (palette (meta cur)) + length updates \<le> 256" if "e = PaletteFull"
      using that e(2) applyUpdates_room[of "palette (meta cur)" updates ?w ?h pixels] by auto
    then have "e = PaletteFull \<Longrightarrow> 256 < length (palette (meta cur)) + length updates"
      by (simp add: not_le)
    then show ?thesis using e(1) r by auto
  qed
  have first: "\<exists>e \<in> {OutOfBounds, InvalidColor, PaletteFull, LengthMismatch}.
            fst (setPixels updates source now s) = Inl e
          \<and> (e = LengthMismatch \<longrightarrow>
               decodePixelsFromBase64 (pixelsBase64 cur) (?w * ?h) = Inl LengthMismatch)
          \<and> (e = PaletteFull \<longrightarrow> 256 < length (palette (meta cur)) + length updates)"
    using main by force
  have mismatch: "fst (setPixels updates source now s) = Inl LengthMismatch"
    if "\<exists>e. decodePixelsFromBase64 (pixelsBase64 cur) (?w * ?h) = Inl e"
  proof -
    from that obtain e where "decodePixelsFromBase64 (pixelsBase64 cur) (?w * ?h) = Inl e" by blast
    then have "setPixels updates source now s = (Inl LengthMismatch, snd (getCanvas s))"
      using ne unfolding cur by (rule setPixels_LengthMismatch)
    then show ?thesis by simp
  qed
  have step: "\<exists>k<length updates.
                (\<forall>j<k. stepError ?w ?h (paletteAfter (palette (meta cur)) (take j updates)) (updates ! j) = None)
              \<and> (\<exists>e. stepError ?w ?h (paletteAfter (palette (meta cur)) (take k updates)) (updates ! k) = Some e
                     \<and> fst (setPixels updates source now s) = Inl e)"
    if dec: "decodePixelsFromBase64 (pixelsBase64 cur) (?w * ?h) = Inr pixels" for pixels
  proof -
    from applyUpdates_invalid[OF bad, of "palette (meta cur)" pixels]
    obtain e where e: "applyUpdates ?w ?h updates (palette (meta cur)) pixels = Inl e" by blast
    have "setPixels updates source now s = (Inl e, snd (getCanvas s))"
      using e dec ne unfolding cur by (rule setPixels_Inl)
    then have r: "fst (setPixels updates source now s) = Inl e" by simp
    from applyUpdates_first_failure[OF e] r show ?thesis by blast
  qed
  from main have s': "snd (setPixels updates source now s) = snd (getCanvas s)" by auto
  have stored: "canvas_v1 s \<noteq> None \<Longrightarrow> snd (getCanvas s) = s"
    using getCanvas_cases[of s] by auto
  show ?thesis
  proof (intro conjI)
    show "\<exists>e \<in> {OutOfBounds, InvalidColor, PaletteFull, LengthMismatch}.
            fst (setPixels updates source now s) = Inl e
          \<and> (e = LengthMismatch \<longrightarrow>
               decodePixelsFromBase64 (pixelsBase64 cur) (?w * ?h) = Inl LengthMismatch)
          \<and> (e = PaletteFull \<longrightarrow> 256 < length (palette (meta cur)) + length updates)"
      by (rule first)
    show "(\<exists>e. decodePixelsFromBase64 (pixelsBase64 cur) (?w * ?h) = Inl e)
               \<longrightarrow> fst (setPixels updates source now s) = Inl LengthMismatch"
      using mismatch by blast
    show "\<forall>pixels. decodePixelsFromBase64 (pixelsBase64 cur) (?w * ?h) = Inr pixels
               \<longrightarrow> (\<exists>k<length updates.
                      (\<forall>j<k. stepError ?w ?h (paletteAfter (palette (meta cur)) (take j updates)) (updates ! j) = None)
                    \<and> (\<exists>e. stepError ?w ?h (paletteAfter (palette (meta cur)) (take k updates)) (updates ! k) = Some e
                           \<and> fst (setPixels updates source now s) = Inl e))"
      using step by blast
    show "snd (setPixels updates source now s) = snd (getCanvas s)" by (rule s')
    show "events_v1 (snd (setPixels updates source now s)) = events_v1 s" by (simp add: s')
    show "fst (getCanvas (snd (setPixels updates source now s))) = fst (getCanvas s)" by (simp add: s')
    show "canvas_v1 s \<noteq> None \<longrightarrow> snd (setPixels updates source now s) = s"
      using stored by (simp add: s')
  qed
qed

theorem setPixels_rejects_batch_witness:
  "fst (setPixels [PixelUpdate 0 0 ''#abc'', PixelUpdate 2 0 ''  ''] None 7 smallCanvas) = Inl OutOfBounds
   \<and> snd (setPixels [PixelUpdate 0 0 ''#abc'', PixelUpdate 2 0 ''  ''] None 7 smallCanvas) = smallCanvas
   \<and> fst (setPixels [PixelUpdate 0 0 ''#abc'', PixelUpdate 1 0 ''  ''] None 7 smallCanvas) = Inl InvalidColor
   \<and> events_v1 (snd (setPixels [PixelUpdate 0 0 ''#abc'', PixelUpdate 1 0 ''  ''] None 7 smallCanvas)) = []"
proof -
  let ?cur = "fst (getCanvas smallCanvas)"
  let ?p = "[''#ffffff'', ''#000000'']"
  have t: "trim ''  '' = []" by code_simp
  have b1: "\<exists>u \<in> set [PixelUpdate 0 0 ''#abc'', PixelUpdate 2 0 ''  ''].
              \<not> validUpdate (width (meta ?cur)) (height (meta ?cur)) u"
    by (simp add: getCanvas_smallCanvas validUpdate_def)
  have b2: "\<exists>u \<in> set [PixelUpdate 0 0 ''#abc'', PixelUpdate 1 0 ''  ''].
              \<not> validUpdate (width (meta ?cur)) (height (meta ?cur)) u"
    by (simp add: getCanvas_smallCanvas validUpdate_def t)
  have dec: "decodePixelsFromBase64 (pixelsBase64 ?cur) (width (meta ?cur) * height (meta ?cur)) = Inr [0, 0, 0, 0]"
    by (simp add: getCanvas_smallCanvas)
  have e0: "stepError 2 2 ?p (PixelUpdate 0 0 ''#abc'') = None" by code_simp
  have e1: "stepError 2 2 (paletteAfter ?p [PixelUpdate 0 0 ''#abc'']) (PixelUpdate 2 0 ''  '') = Some OutOfBounds"
    by code_simp
  have e2: "stepError 2 2 (paletteAfter ?p [PixelUpdate 0 0 ''#abc'']) (PixelUpdate 1 0 ''  '') = Some InvalidColor"
    by code_simp
  note w1 = setPixels_rejects_batch [OF b1 refl, of None 7]
  note w2 = setPixels_rejects_batch [OF b2 refl, of None 7]
  from w1 dec obtain k e where k: "k < length [PixelUpdate 0 0 ''#abc'', PixelUpdate 2 0 ''  '']"
    and ke: "stepError (width (meta ?cur)) (height (meta ?cur))
               (paletteAfter (palette (meta ?cur)) (take k [PixelUpdate 0 0 ''#abc'', PixelUpdate 2 0 ''  '']))
               ([PixelUpdate 0 0 ''#abc'', PixelUpdate 2 0 ''  ''] ! k) = Some e"
    and r: "fst (setPixels [PixelUpdate 0 0 ''#abc'', PixelUpdate 2 0 ''  ''] None 7 smallCanvas) = Inl e"
    by blast
  from k have "k = 0 \<or> k = 1" by auto
  then have "e = OutOfBounds"
    using ke e0 e1 by (auto simp: getCanvas_smallCanvas simp del: paletteAfter.simps(2))
  with r have r1: "fst (setPixels [PixelUpdate 0 0 ''#abc'', PixelUpdate 2 0 ''  ''] None 7 smallCanvas) = Inl OutOfBounds"
    by simp
  from w2 dec obtain k' e' where k': "k' < length [PixelUpdate 0 0 ''#abc'', PixelUpdate 1 0 ''  '']"
    and ke': "stepError (width (meta ?cur)) (height (meta ?cur))
               (paletteAfter (palette (meta ?cur)) (take k' [PixelUpdate 0 0 ''#abc'', PixelUpdate 1 0 ''  '']))
               ([PixelUpdate 0 0 ''#abc'', PixelUpdate 1 0 ''  ''] ! k') = Some e'"
    and r': "fst (setPixels [PixelUpdate 0 0 ''#abc'', PixelUpdate 1 0 ''  ''] None 7 smallCanvas) = Inl e'"
    by blast
  from k' have "k' = 0 \<or> k' = 1" by auto
  then have "e' = InvalidColor"
    using ke' e0 e2 by (auto simp: getCanvas_smallCanvas simp del: paletteAfter.simps(2))
  with r' have r2: "fst (setPixels [PixelUpdate 0 0 ''#abc'', PixelUpdate 1 0 ''  ''] None 7 smallCanvas) = Inl InvalidColor"
    by simp
  from w1 have s1: "snd (setPixels [PixelUpdate 0 0 ''#abc'', PixelUpdate 2 0 ''  ''] None 7 smallCanvas)
                    = snd (getCanvas smallCanvas)"
    by blast
  from w2 have s2: "events_v1 (snd (setPixels [PixelUpdate 0 0 ''#abc'', PixelUpdate 1 0 ''  ''] None 7 smallCanvas))
                    = events_v1 smallCanvas"
    by blast
  show ?thesis using r1 r2 s1 s2 by (simp add: getCanvas_smallCanvas events_smallCanvas)
qed

text \<open>A batch whose second update is out of bounds, on a full palette: the error is the
  palette-full error of the first update.\<close>

theorem setPixels_rejects_batch_counterexample:
  "\<not> validUpdate 1 1 (PixelUpdate (- 1) 0 ''#fff'')
   \<and> setPixels [PixelUpdate 0 0 ''#ff0000'', PixelUpdate (- 1) 0 ''#fff''] None 0 fullCanvas
       = (Inl PaletteFull, fullCanvas)"
proof -
  have g: "getCanvas fullCanvas =
      (\<lparr>meta = \<lparr>width = 1, height = 1, palette = fullPalette\<rparr>, pixelsBase64 = encodePixelsToBase64 [0]\<rparr>,
       fullCanvas)"
    by (simp add: getCanvas_def fullCanvas_def)
  have v: "validUpdate 1 1 (PixelUpdate 0 0 ''#ff0000'')" by code_simp
  have a: "applyUpdates 1 1 [PixelUpdate 0 0 ''#ff0000'', PixelUpdate (- 1) 0 ''#fff''] fullPalette [0]
           = Inl PaletteFull"
    by (simp add: applyUpdates_step[OF v] ensure_full)
  have "setPixels [PixelUpdate 0 0 ''#ff0000'', PixelUpdate (- 1) 0 ''#fff''] None 0 fullCanvas
       = (Inl PaletteFull, snd (getCanvas fullCanvas))"
    by (rule setPixels_Inl[where pixels = "[0]"]) (simp_all add: g a)
  then show ?thesis by (simp add: g validUpdate_def)
qed


subsection \<open>The palette only grows, except by a reset that names a palette\<close>

lemma paletteOf_getCanvas [simp]: "paletteOf (snd (getCanvas s)) = paletteOf s"
  by (simp add: paletteOf_def)

lemma paletteOf_set [simp]: "paletteOf (s\<lparr>canvas_v1 := Some st\<rparr>) = palette (meta st)"
  by (simp add: paletteOf_def)

lemma paletteOf_events [simp]: "paletteOf (s\<lparr>events_v1 := evs\<rparr>) = paletteOf s"
  by (cases "canvas_v1 s") (simp_all add: paletteOf_def getCanvas_def)

lemma paletteOf_appendEventToLog [simp]: "paletteOf (appendEventToLog e s) = paletteOf s"
  by (simp add: paletteOf_def)

lemma setPixel_Inl:
  assumes "fst (setPixel x y color source now s) = Inl e"
  shows "snd (setPixel x y color source now s) = snd (getCanvas s)"
proof -
  obtain cur s1 where g: "getCanvas s = (cur, s1)" by (cases "getCanvas s")
  show ?thesis using assms unfolding setPixel_def g
    by (auto simp: Let_def split: if_splits sum.splits prod.splits)
qed

lemma setPixel_palette: "prefix (paletteOf s) (paletteOf (snd (setPixel x y color source now s)))"
proof (cases "fst (setPixel x y color source now s)")
  case (Inl e)
  then show ?thesis by (simp add: setPixel_Inl)
next
  case (Inr st')
  then have "setPixel x y color source now s = (Inr st', snd (setPixel x y color source now s))"
    by (simp add: prod_eq_iff)
  from setPixel_Inr[OF this] obtain p i pixels where
    h: "0 \<le> x" "x < width (meta (fst (getCanvas s)))" "0 \<le> y" "y < height (meta (fst (getCanvas s)))"
      "trim color \<noteq> []"
      "ensureColorInPalette (palette (meta (fst (getCanvas s)))) color = Inr (p, i)"
      "decodePixelsFromBase64 (pixelsBase64 (fst (getCanvas s)))
               (width (meta (fst (getCanvas s))) * height (meta (fst (getCanvas s)))) = Inr pixels"
    by blast
  show ?thesis
    using ensureColorInPalette_prefix[OF h(6)]
    by (simp add: setPixel_accepts[OF refl h refl] paletteOf_def[of s])
qed

lemma setPixels_palette: "prefix (paletteOf s) (paletteOf (snd (setPixels us source now s)))"
proof (cases "us = []")
  case True
  then show ?thesis by (simp add: setPixels_def)
next
  case ne: False
  let ?cur = "fst (getCanvas s)"
  show ?thesis
  proof (cases "decodePixelsFromBase64 (pixelsBase64 ?cur) (width (meta ?cur) * height (meta ?cur))")
    case (Inl e)
    then show ?thesis by (simp add: setPixels_LengthMismatch[OF Inl ne])
  next
    case (Inr pixels)
    show ?thesis
    proof (cases "applyUpdates (width (meta ?cur)) (height (meta ?cur)) us (palette (meta ?cur)) pixels")
      case (Inl e)
      then show ?thesis by (simp add: setPixels_Inl[OF Inl Inr ne])
    next
      case r: (Inr r)
      obtain p px where r': "r = (p, px)" by (cases r)
      show ?thesis
        using applyUpdates_Inr[OF r[unfolded r']]
        by (simp add: setPixels_Inr_applied[OF r[unfolded r'] Inr ne refl refl] paletteOf_def[of s])
    qed
  qed
qed

lemma resetCanvas_palette:
  "paletteOf (snd (resetCanvas pw ph pp s)) = paletteOf s
   \<or> (\<exists>p. pp = Some p \<and> paletteOf (snd (resetCanvas pw ph pp s)) = p)"
proof -
  obtain cur s1 where g: "getCanvas s = (cur, s1)" by (cases "getCanvas s")
  have s1: "paletteOf s1 = paletteOf s" using paletteOf_getCanvas[of s] by (simp add: g)
  have c: "palette (meta cur) = paletteOf s" by (simp add: paletteOf_def g)
  show ?thesis unfolding resetCanvas_def g
    by (cases pp) (auto simp: Let_def s1 c)
qed


lemma resetCanvas_Inr:
  assumes "fst (resetCanvas pw ph pp s) = Inr st"
  shows "palette (meta st) = (case pp of Some p \<Rightarrow> p | None \<Rightarrow> paletteOf s)
         \<and> snd (resetCanvas pw ph pp s) = (snd (getCanvas s))\<lparr>canvas_v1 := Some st\<rparr>"
proof -
  obtain cur s1 where g: "getCanvas s = (cur, s1)" by (cases "getCanvas s")
  show ?thesis
    using assms unfolding resetCanvas_def g paletteOf_def
    by (auto simp: Let_def g split: if_splits option.splits)
qed

lemma resetCanvas_Inl:
  assumes "fst (resetCanvas pw ph pp s) = Inl e"
  shows "snd (resetCanvas pw ph pp s) = snd (getCanvas s)"
proof -
  obtain cur s1 where g: "getCanvas s = (cur, s1)" by (cases "getCanvas s")
  show ?thesis
    using assms unfolding resetCanvas_def g
    by (auto simp: Let_def split: if_splits)
qed

text \<open>
  Claim C2.  \<^verbatim>\<open>getCanvas\<close>, \<^verbatim>\<open>setPixel\<close>, \<^verbatim>\<open>setPixels\<close> and \<^verbatim>\<open>resetCanvas\<close> without a palette
  argument leave a palette that has the palette before the call as a prefix, whether
  they succeed or fail: no entry is removed or moved, and the length does not decrease.
  \<^verbatim>\<open>resetCanvas\<close> with a palette argument, when it succeeds, returns and stores a state
  whose palette is that argument, in place of the old one; when it fails it leaves the
  palette alone.
\<close>

theorem palette_prefix_preserved:
  "(\<not> replacesPalette op \<longrightarrow>
      prefix (paletteOf s) (paletteOf (perform op now s))
      \<and> length (paletteOf s) \<le> length (paletteOf (perform op now s)))
   \<and> (\<forall>pw ph p. op = OpResetCanvas pw ph (Some p) \<longrightarrow>
        (paletteOf (perform op now s) = p \<or> paletteOf (perform op now s) = paletteOf s)
        \<and> (\<forall>st. fst (resetCanvas pw ph (Some p) s) = Inr st \<longrightarrow>
               palette (meta st) = p
               \<and> canvas_v1 (perform op now s) = Some st
               \<and> paletteOf (perform op now s) = p)
        \<and> (\<forall>e. fst (resetCanvas pw ph (Some p) s) = Inl e \<longrightarrow>
               paletteOf (perform op now s) = paletteOf s))"
proof (cases op)
  case OpGetCanvas
  then show ?thesis by simp
next
  case (OpSetPixel x y color source)
  then show ?thesis using setPixel_palette[of s x y color source now] by (simp add: prefix_length_le)
next
  case (OpSetPixels us source)
  then show ?thesis using setPixels_palette[of s us source now] by (simp add: prefix_length_le)
next
  case (OpResetCanvas pw ph pp)
  show ?thesis
  proof (cases pp)
    case None
    then show ?thesis using OpResetCanvas resetCanvas_palette[of pw ph pp s] by auto
  next
    case (Some p)
    have ok: "palette (meta st) = p \<and> canvas_v1 (snd (resetCanvas pw ph (Some p) s)) = Some st
              \<and> paletteOf (snd (resetCanvas pw ph (Some p) s)) = p"
      if "fst (resetCanvas pw ph (Some p) s) = Inr st" for st
      using resetCanvas_Inr[OF that] by simp
    have fail: "paletteOf (snd (resetCanvas pw ph (Some p) s)) = paletteOf s"
      if "fst (resetCanvas pw ph (Some p) s) = Inl e" for e
      using resetCanvas_Inl[OF that] by simp
    show ?thesis
      using OpResetCanvas Some resetCanvas_palette[of pw ph "Some p" s] ok fail by auto
  qed
qed


lemma paletteOf_grownCanvas: "paletteOf grownCanvas = DEFAULT_PALETTE @ [''#123456'']"
proof -
  let ?s = "\<lparr>canvas_v1 = None, events_v1 = []\<rparr>"
  have g: "getCanvas ?s = (initialState, ?s\<lparr>canvas_v1 := Some initialState\<rparr>)"
    by (simp add: getCanvas_def)
  have m: "width (meta initialState) = 64" "height (meta initialState) = 64"
    "palette (meta initialState) = DEFAULT_PALETTE"
    "pixelsBase64 initialState = encodePixelsToBase64 (createEmptyPixels 64 64 0)"
    by (simp_all add: initialState_def)
  have t: "trim ''#123456'' \<noteq> []" by code_simp
  have "setPixel 1 1 ''#123456'' (Some Mcp) 1 ?s =
     (Inr \<lparr>meta = (meta initialState)\<lparr>palette := DEFAULT_PALETTE @ [''#123456'']\<rparr>,
           pixelsBase64 = encodePixelsToBase64 (uint8Set (createEmptyPixels 64 64 0) (indexFor 1 1 (width (meta initialState))) 16)\<rparr>,
      appendEventToLog
        (PixelSetEvent 1 1 (Some ((DEFAULT_PALETTE @ [''#123456'']) ! 16)) 16 1 (case Some Mcp of Some src \<Rightarrow> src | None \<Rightarrow> System))
        ((snd (getCanvas ?s))\<lparr>canvas_v1 := Some \<lparr>meta = (meta initialState)\<lparr>palette := DEFAULT_PALETTE @ [''#123456'']\<rparr>,
           pixelsBase64 = encodePixelsToBase64 (uint8Set (createEmptyPixels 64 64 0) (indexFor 1 1 (width (meta initialState))) 16)\<rparr>\<rparr>))"
    by (rule setPixel_accepts[where cur = initialState and pixels = "createEmptyPixels 64 64 0"])
       (simp_all add: g m t ensure_default_new length_createEmptyPixels_default)
  then show ?thesis by (simp add: grownCanvas_def)
qed

theorem palette_prefix_preserved_witness:
  "prefix (paletteOf \<lparr>canvas_v1 = None, events_v1 = []\<rparr>)
          (paletteOf (perform (OpSetPixel 1 1 ''#123456'' (Some Mcp)) 1 \<lparr>canvas_v1 = None, events_v1 = []\<rparr>))
   \<and> paletteOf (perform (OpSetPixel 1 1 ''#123456'' (Some Mcp)) 1 \<lparr>canvas_v1 = None, events_v1 = []\<rparr>)
       = DEFAULT_PALETTE @ [''#123456'']
   \<and> (\<exists>st. fst (resetCanvas None None (Some []) smallCanvas) = Inr st)
   \<and> paletteOf (perform (OpResetCanvas None None (Some [])) 1 smallCanvas) = []
   \<and> fst (resetCanvas (Some 0) None (Some []) smallCanvas) = Inl InvalidDimensions
   \<and> paletteOf (perform (OpResetCanvas (Some 0) None (Some [])) 1 smallCanvas) = paletteOf smallCanvas"
proof -
  have a: "\<not> replacesPalette (OpSetPixel 1 1 ''#123456'' (Some Mcp))" by simp
  have i: "isInteger 2" "isInteger 0" by (simp_all add: isInteger_def)
  have ok: "fst (resetCanvas None None (Some []) smallCanvas) =
             Inr \<lparr>meta = \<lparr>width = 2, height = 2, palette = []\<rparr>,
                   pixelsBase64 = encodePixelsToBase64 (createEmptyPixels 2 2 0)\<rparr>"
    by (simp add: resetCanvas_def getCanvas_smallCanvas Let_def i)
  have bad: "fst (resetCanvas (Some 0) None (Some []) smallCanvas) = Inl InvalidDimensions"
    by (simp add: resetCanvas_def getCanvas_smallCanvas Let_def i)
  note t1 = palette_prefix_preserved [of "OpSetPixel 1 1 ''#123456'' (Some Mcp)" "\<lparr>canvas_v1 = None, events_v1 = []\<rparr>" 1]
  note t2 = palette_prefix_preserved [of "OpResetCanvas None None (Some [])" smallCanvas 1]
  note t3 = palette_prefix_preserved [of "OpResetCanvas (Some 0) None (Some [])" smallCanvas 1]
  from t1 a have p1: "prefix (paletteOf \<lparr>canvas_v1 = None, events_v1 = []\<rparr>)
          (paletteOf (perform (OpSetPixel 1 1 ''#123456'' (Some Mcp)) 1 \<lparr>canvas_v1 = None, events_v1 = []\<rparr>))"
    by blast
  from t2 ok have p2: "paletteOf (perform (OpResetCanvas None None (Some [])) 1 smallCanvas) = []"
    by blast
  from t3 bad have p3: "paletteOf (perform (OpResetCanvas (Some 0) None (Some [])) 1 smallCanvas) = paletteOf smallCanvas"
    by blast
  have p4: "paletteOf (perform (OpSetPixel 1 1 ''#123456'' (Some Mcp)) 1 \<lparr>canvas_v1 = None, events_v1 = []\<rparr>)
       = DEFAULT_PALETTE @ [''#123456'']"
    using paletteOf_grownCanvas by (simp add: grownCanvas_def)
  show ?thesis using p1 p2 p3 p4 ok bad by simp
qed

text \<open>After a seventeenth colour has been added, the reset of \<^verbatim>\<open>scripts/reset-canvas.ts\<close>
  brings the palette back to the sixteen default colours.\<close>

theorem palette_prefix_preserved_counterexample:
  "paletteOf grownCanvas = DEFAULT_PALETTE @ [''#123456'']
   \<and> paletteOf (perform (OpResetCanvas (Some 100) (Some 100) (Some DEFAULT_PALETTE)) 2 grownCanvas)
       = DEFAULT_PALETTE
   \<and> length (paletteOf (perform (OpResetCanvas (Some 100) (Some 100) (Some DEFAULT_PALETTE)) 2 grownCanvas))
       < length (paletteOf grownCanvas)"
proof -
  have i: "isInteger 100" by (simp add: isInteger_def)
  obtain cur s1 where g: "getCanvas grownCanvas = (cur, s1)" by (cases "getCanvas grownCanvas")
  have "paletteOf (snd (resetCanvas (Some 100) (Some 100) (Some DEFAULT_PALETTE) grownCanvas)) = DEFAULT_PALETTE"
    unfolding resetCanvas_def g by (simp add: Let_def i)
  then show ?thesis by (simp add: paletteOf_grownCanvas)
qed


subsection \<open>Coordinates that are not integers\<close>

lemma setPixels_single_nonInteger:
  assumes "\<not> isInteger x \<or> \<not> isInteger y"
    and "decodePixelsFromBase64 (pixelsBase64 (fst (getCanvas s)))
           (width (meta (fst (getCanvas s))) * height (meta (fst (getCanvas s)))) = Inr pixels"
  shows "setPixels (PixelUpdate x y color # rest) source now s = (Inl OutOfBounds, snd (getCanvas s))"
proof -
  obtain cur s1 where g: "getCanvas s = (cur, s1)" by (cases "getCanvas s")
  show ?thesis using assms unfolding setPixels_def g by (auto simp: Let_def applyUpdates.simps)
qed

lemma decodePixelsFromBase64_Inl:
  "decodePixelsFromBase64 text n = Inl e \<Longrightarrow> e = LengthMismatch"
  by (auto simp: decodePixelsFromBase64_def Let_def split: if_splits)

lemma setPixel_in_bounds_error:
  assumes "0 \<le> x" "x < width (meta (fst (getCanvas s)))" "0 \<le> y" "y < height (meta (fst (getCanvas s)))"
    and "fst (setPixel x y color source now s) = Inl e"
  shows "e \<in> {InvalidColor, PaletteFull, LengthMismatch}"
proof -
  obtain cur s1 where g: "getCanvas s = (cur, s1)" by (cases "getCanvas s")
  show ?thesis
    using assms unfolding setPixel_def g
    by (auto simp: Let_def not_le split: if_splits sum.splits prod.splits
        dest: ensureColorInPalette_Inl decodePixelsFromBase64_Inl)
qed

text \<open>
  Claim C9.  \<^verbatim>\<open>setPixel\<close> does not ask for integer coordinates.  With \<open>x\<close> or \<open>y\<close> not
  an integer and both within the bounds, \<^verbatim>\<open>setPixel\<close> never fails with the
  out-of-bounds error, and it succeeds whenever a call can succeed at all (the colour
  is not blank, the palette holds the colour or has room for it, the stored grid has
  the right length): it persists the updated state and appends one \<^verbatim>\<open>pixel_set\<close> event
  with these coordinates.  \<^verbatim>\<open>setPixels\<close> rejects every batch that holds such an update,
  and rejects the update alone with its out-of-bounds error (given a stored grid of the
  right length, which it decodes first), leaving the store as its read left it.
\<close>

theorem setPixel_accepts_nonInteger:
  assumes frac: "\<not> isInteger x \<or> \<not> isInteger y"
    and cur: "cur = fst (getCanvas s)"
    and bounds: "0 \<le> x" "x < width (meta cur)" "0 \<le> y" "y < height (meta cur)"
  shows "fst (setPixel x y color source now s) \<noteq> Inl OutOfBounds
         \<and> (\<forall>p i pixels.
               trim color \<noteq> []
               \<and> ensureColorInPalette (palette (meta cur)) color = Inr (p, i)
               \<and> decodePixelsFromBase64 (pixelsBase64 cur) (width (meta cur) * height (meta cur)) = Inr pixels
               \<longrightarrow> (\<exists>updated.
                      fst (setPixel x y color source now s) = Inr updated
                    \<and> canvas_v1 (snd (setPixel x y color source now s)) = Some updated
                    \<and> palette (meta updated) = p
                    \<and> events_v1 (snd (setPixel x y color source now s)) =
                        events_v1 s @ [JString (Some (JEventObject
                          (PixelSetEvent x y (Some (p ! i)) i now
                             (case source of Some src \<Rightarrow> src | None \<Rightarrow> System))))]))
         \<and> (\<forall>pixels.
               decodePixelsFromBase64 (pixelsBase64 cur) (width (meta cur) * height (meta cur)) = Inr pixels
               \<longrightarrow> fst (setPixels [PixelUpdate x y color] source now s) = Inl OutOfBounds
                   \<and> snd (setPixels [PixelUpdate x y color] source now s) = snd (getCanvas s))
         \<and> (\<forall>updates. PixelUpdate x y color \<in> set updates
               \<longrightarrow> (\<exists>e. fst (setPixels updates source now s) = Inl e))"
proof (intro conjI allI impI)
  show "fst (setPixel x y color source now s) \<noteq> Inl OutOfBounds"
    using setPixel_in_bounds_error[OF bounds[unfolded cur], of color source now OutOfBounds] by auto
next
  fix p i pixels
  assume h: "trim color \<noteq> []
               \<and> ensureColorInPalette (palette (meta cur)) color = Inr (p, i)
               \<and> decodePixelsFromBase64 (pixelsBase64 cur) (width (meta cur) * height (meta cur)) = Inr pixels"
  define updated where "updated = \<lparr>meta = (meta cur)\<lparr>palette := p\<rparr>,
      pixelsBase64 = encodePixelsToBase64 (uint8Set pixels (indexFor x y (width (meta cur))) i)\<rparr>"
  have "setPixel x y color source now s =
           (Inr updated,
            appendEventToLog
              (PixelSetEvent x y (Some (p ! i)) i now (case source of Some src \<Rightarrow> src | None \<Rightarrow> System))
              ((snd (getCanvas s))\<lparr>canvas_v1 := Some updated\<rparr>))"
    using cur bounds h updated_def by (intro setPixel_accepts) auto
  then show "\<exists>updated.
                      fst (setPixel x y color source now s) = Inr updated
                    \<and> canvas_v1 (snd (setPixel x y color source now s)) = Some updated
                    \<and> palette (meta updated) = p
                    \<and> events_v1 (snd (setPixel x y color source now s)) =
                        events_v1 s @ [JString (Some (JEventObject
                          (PixelSetEvent x y (Some (p ! i)) i now
                             (case source of Some src \<Rightarrow> src | None \<Rightarrow> System))))]"
    by (simp add: appendEventToLog_def updated_def)
next
  fix pixels
  assume d: "decodePixelsFromBase64 (pixelsBase64 cur) (width (meta cur) * height (meta cur)) = Inr pixels"
  have "setPixels [PixelUpdate x y color] source now s = (Inl OutOfBounds, snd (getCanvas s))"
    using frac d unfolding cur by (rule setPixels_single_nonInteger)
  then show "fst (setPixels [PixelUpdate x y color] source now s) = Inl OutOfBounds"
    and "snd (setPixels [PixelUpdate x y color] source now s) = snd (getCanvas s)"
    by simp_all
next
  fix updates
  assume m: "PixelUpdate x y color \<in> set updates"
  have nv: "\<not> validUpdate (width (meta cur)) (height (meta cur)) (PixelUpdate x y color)"
    using frac by (auto simp: validUpdate_def)
  with m have bad: "\<exists>u \<in> set updates. \<not> validUpdate (width (meta cur)) (height (meta cur)) u" by blast
  have ne: "updates \<noteq> []" using m by auto
  show "\<exists>e. fst (setPixels updates source now s) = Inl e"
  proof (cases "decodePixelsFromBase64 (pixelsBase64 cur) (width (meta cur) * height (meta cur))")
    case (Inl e)
    then show ?thesis using setPixels_LengthMismatch[OF Inl[unfolded cur] ne, of source now] by simp
  next
    case (Inr pixels)
    from applyUpdates_invalid[OF bad, of "palette (meta cur)" pixels]
    obtain e where "applyUpdates (width (meta cur)) (height (meta cur)) updates (palette (meta cur)) pixels = Inl e"
      by blast
    then show ?thesis using setPixels_Inl[OF _ Inr[unfolded cur] ne, of e source now] unfolding cur by simp
  qed
qed

theorem setPixel_accepts_nonInteger_witness:
  "fst (setPixel (1 / 2) 1 ''#F00'' (Some Mcp) 7 smallCanvas) \<noteq> Inl OutOfBounds
   \<and> (\<exists>updated.
      fst (setPixel (1 / 2) 1 ''#F00'' (Some Mcp) 7 smallCanvas) = Inr updated
    \<and> canvas_v1 (snd (setPixel (1 / 2) 1 ''#F00'' (Some Mcp) 7 smallCanvas)) = Some updated
    \<and> palette (meta updated) = [''#ffffff'', ''#000000'', ''#ff0000'']
    \<and> events_v1 (snd (setPixel (1 / 2) 1 ''#F00'' (Some Mcp) 7 smallCanvas)) =
         [JString (Some (JEventObject (PixelSetEvent (1 / 2) 1 (Some ''#ff0000'') 2 7 Mcp)))])
   \<and> fst (setPixels [PixelUpdate (1 / 2) 1 ''#F00''] (Some Mcp) 7 smallCanvas) = Inl OutOfBounds
   \<and> snd (setPixels [PixelUpdate (1 / 2) 1 ''#F00''] (Some Mcp) 7 smallCanvas) = smallCanvas"
proof -
  let ?cur = "fst (getCanvas smallCanvas)"
  have frac: "\<not> isInteger (1 / 2) \<or> \<not> isInteger 1" by (simp add: isInteger_half)
  have bounds: "(0::rat) \<le> 1 / 2" "1 / 2 < width (meta ?cur)" "(0::rat) \<le> 1" "1 < height (meta ?cur)"
    by (simp_all add: getCanvas_smallCanvas)
  have ens: "ensureColorInPalette (palette (meta ?cur)) ''#F00'' = Inr ([''#ffffff'', ''#000000'', ''#ff0000''], 2)"
    by (simp add: getCanvas_smallCanvas ensure_small_red)
  have dec: "decodePixelsFromBase64 (pixelsBase64 ?cur) (width (meta ?cur) * height (meta ?cur)) = Inr [0, 0, 0, 0]"
    by (simp add: getCanvas_smallCanvas)
  show ?thesis
    using setPixel_accepts_nonInteger [OF frac refl bounds, of "''#F00''" "Some Mcp" 7] trim_F00 ens dec
    by (simp add: getCanvas_smallCanvas events_smallCanvas)
qed

end
